theory Spec2Isabelle
  imports Complex_Main
begin

section \<open>Numbers, tensors and errors\<close>

text \<open>
  A tensor element is a floating-point number.  Finite values are modelled by the real
  they denote (rounding and overflow are not modelled); the special values follow the
  IEEE rules that the source relies on: a comparison with NaN is false, \<open>0 * inf\<close>
  and \<open>inf - inf\<close> are NaN, and NaN propagates through arithmetic.
\<close>

datatype fl = Fin real | PInf | NInf | NaN

fun fl_lt :: "fl \<Rightarrow> fl \<Rightarrow> bool" where
  "fl_lt (Fin a) (Fin b) = (a < b)"
| "fl_lt (Fin a) PInf = True"
| "fl_lt NInf (Fin b) = True"
| "fl_lt NInf PInf = True"
| "fl_lt _ _ = False"

definition fl_gt :: "fl \<Rightarrow> fl \<Rightarrow> bool" where
  "fl_gt a b = fl_lt b a"

fun fl_ge :: "fl \<Rightarrow> fl \<Rightarrow> bool" where
  "fl_ge (Fin a) (Fin b) = (b \<le> a)"
| "fl_ge NaN _ = False"
| "fl_ge _ NaN = False"
| "fl_ge PInf _ = True"
| "fl_ge _ NInf = True"
| "fl_ge _ _ = False"

definition fl_le :: "fl \<Rightarrow> fl \<Rightarrow> bool" where
  "fl_le a b = fl_ge b a"

fun fl_add :: "fl \<Rightarrow> fl \<Rightarrow> fl" where
  "fl_add (Fin a) (Fin b) = Fin (a + b)"
| "fl_add NaN _ = NaN"
| "fl_add _ NaN = NaN"
| "fl_add PInf NInf = NaN"
| "fl_add NInf PInf = NaN"
| "fl_add PInf _ = PInf"
| "fl_add _ PInf = PInf"
| "fl_add NInf _ = NInf"
| "fl_add _ NInf = NInf"

text \<open>A finite scalar times a tensor element.\<close>

fun smul :: "real \<Rightarrow> fl \<Rightarrow> fl" where
  "smul r (Fin a) = Fin (r * a)"
| "smul r NaN = NaN"
| "smul r PInf = (if r = 0 then NaN else if 0 < r then PInf else NInf)"
| "smul r NInf = (if r = 0 then NaN else if 0 < r then NInf else PInf)"

fun is_nan :: "fl \<Rightarrow> bool" where
  "is_nan NaN = True"
| "is_nan _ = False"

fun is_fin :: "fl \<Rightarrow> bool" where
  "is_fin (Fin _) = True"
| "is_fin _ = False"

text \<open>A particle is a coordinate vector; a pool is a list of particles (an N x D array).\<close>

type_synonym particle = "fl list"

text \<open>An energy function maps a batch of particles to a vector of energies.\<close>

type_synonym energy = "particle list \<Rightarrow> fl list"

datatype error =
    ValueError string
  | AssertionError string
  | IndexError
  | RuntimeError
  | NotImplementedError
  | NameError
  | ZeroDivisionError

section \<open>Step-size controller\<close>

text \<open>
  \<^verbatim>\<open>update_step_size\<close>: the argument is the mean acceptance rate (a tensor element), the
  state is \<^verbatim>\<open>self.langevin_eps\<close>; the new step size is returned.
\<close>

definition update_step_size :: "real \<Rightarrow> fl \<Rightarrow> real" where
  "update_step_size langevin_eps acceptance_rate =
     (if fl_gt acceptance_rate (Fin (6 / 10)) then langevin_eps * (11 / 10)
      else if fl_lt acceptance_rate (Fin (55 / 100)) then langevin_eps / (11 / 10)
      else langevin_eps)"

text \<open>\<^verbatim>\<open>langevin_eps_fn\<close>: the warm-up ramp of the effective step size.\<close>

definition langevin_eps_fn :: "real \<Rightarrow> real \<Rightarrow> real \<Rightarrow> real" where
  "langevin_eps_fn langevin_eps warmup t =
     (if t < warmup then (langevin_eps * t) / warmup else langevin_eps)"

section \<open>Energy interpolation\<close>

text \<open>
  \<^verbatim>\<open>linear_energy_interpolation\<close>: both energies are evaluated on the batch, the two
  shape assertions are checked in the source's order (their messages without the shape
  that the source appends), then \<^verbatim>\<open>(1 - t) * E_source + t * E_target\<close> is formed element
  by element.
\<close>

definition linear_energy_interpolation ::
  "energy \<Rightarrow> energy \<Rightarrow> real \<Rightarrow> particle list \<Rightarrow> error + fl list" where
  "linear_energy_interpolation source_energy target_energy t x =
     (let E_source = source_energy x;
          E_target = target_energy x
      in if length E_source \<noteq> length x
         then Inl (AssertionError ''Source energy should be a flat vector'')
         else if length E_target \<noteq> length x
         then Inl (AssertionError ''Target energy should be a flat vector'')
         else Inr (map2 fl_add (map (smul (1 - t)) E_source) (map (smul t) E_target)))"

section \<open>Resampler\<close>

text \<open>
  The library operations used by \<^verbatim>\<open>resample\<close>.  \<^verbatim>\<open>torch.softmax\<close> is
  \<open>exp x\<^sub>i / (\<Sum>\<^sub>j exp x\<^sub>j)\<close>; with a NaN or a \<open>+inf\<close> entry, or with every entry \<open>-inf\<close>,
  the floating-point computation yields NaN in every position.
\<close>

fun fl_exp :: "fl \<Rightarrow> real" where
  "fl_exp (Fin r) = exp r"
| "fl_exp _ = 0"

definition softmax :: "fl list \<Rightarrow> fl list" where
  "softmax logw =
     (if list_ex (\<lambda>x. x = NaN \<or> x = PInf) logw \<or> list_all (\<lambda>x. x = NInf) logw
      then map (\<lambda>_. NaN) logw
      else map (\<lambda>x. Fin (fl_exp x / sum_list (map fl_exp logw))) logw)"

fun cumsum_from :: "fl \<Rightarrow> fl list \<Rightarrow> fl list" where
  "cumsum_from acc [] = []"
| "cumsum_from acc (x # xs) = fl_add acc x # cumsum_from (fl_add acc x) xs"

definition cumsum :: "fl list \<Rightarrow> fl list" where
  "cumsum w = cumsum_from (Fin 0) w"

text \<open>
  \<^verbatim>\<open>torch.searchsorted(c, v)\<close> for one value (left side): the first position whose entry is
  greater than or equal to \<open>v\<close>, and \<open>len(c)\<close> when there is none.
\<close>

fun searchsorted1 :: "fl list \<Rightarrow> fl \<Rightarrow> nat" where
  "searchsorted1 [] v = 0"
| "searchsorted1 (c # cs) v = (if fl_ge c v then 0 else Suc (searchsorted1 cs v))"

definition searchsorted :: "fl list \<Rightarrow> fl list \<Rightarrow> nat list" where
  "searchsorted c vs = map (searchsorted1 c) vs"

text \<open>\<^verbatim>\<open>x[indexes]\<close>: indexing with an index tensor raises when an index is out of range.\<close>

definition index_rows :: "'a list \<Rightarrow> nat list \<Rightarrow> error + 'a list" where
  "index_rows x indexes =
     (if list_all (\<lambda>i. i < length x) indexes then Inr (map (\<lambda>i. x ! i) indexes)
      else Inl IndexError)"

text \<open>
  The sampler object: the constructor's fields.  \<^verbatim>\<open>langevin_eps\<close>, the one field that is
  mutated, lives in the process state below.
\<close>

record config =
  batch_size :: int
  num_timesteps :: int
  ess_threshold :: fl
  systematic_resampling :: bool
  adaptive_step_size :: bool
  warmup :: real
  enabled :: bool
  do_energy_plots :: bool
  log_freq :: int
  input_energy_cutoff :: "fl option"

text \<open>
  The process state: how many random resampling draws have been taken from the ambient
  generator, the log of kernel invocations as pairs \<open>(t, dt)\<close>, and \<^verbatim>\<open>self.langevin_eps\<close>.
\<close>

record world =
  rng_draws :: nat
  kernel_calls :: "(real \<times> real) list"
  step_size :: real

text \<open>
  The collaborators that are not part of the sampler: the local-move kernel of the
  subclass (given the number of earlier invocations and the current step size, then the
  arguments of \<^verbatim>\<open>mcmc_kernel\<close>; it returns the new batch, the new log-weights and the
  flattened acceptance rate), the effective-sample-size helper, and the two random
  library calls, indexed by the number of the draw.
\<close>

record env =
  mcmc_kernel :: "nat \<Rightarrow> real \<Rightarrow> energy \<Rightarrow> energy \<Rightarrow> real \<Rightarrow> particle list \<Rightarrow> fl list \<Rightarrow> real
                  \<Rightarrow> error + (particle list \<times> fl list \<times> fl list)"
  sampling_efficiency :: "fl list \<Rightarrow> fl"
  torch_rand :: "nat \<Rightarrow> real"
  torch_multinomial :: "nat \<Rightarrow> fl list \<Rightarrow> nat \<Rightarrow> error + nat list"

type_synonym 'a outcome = "world \<times> (error + 'a)"

text \<open>
  \<^verbatim>\<open>resample\<close>.  Both branches take one draw from the generator.  In the systematic
  branch \<open>N\<close> is the length of the weight vector and the thresholds are
  \<open>u + k / N\<close> for \<open>k = 0..N-1\<close> with \<open>u = rand / N\<close>.
\<close>

definition systematic_indexes :: "real \<Rightarrow> fl list \<Rightarrow> nat list" where
  "systematic_indexes r logw =
     (let N = length logw;
          w = softmax logw;
          c = cumsum w;
          u = r / real N
      in searchsorted c (map (\<lambda>k. Fin (u + real k / real N)) [0..<N]))"

definition resample ::
  "config \<Rightarrow> env \<Rightarrow> world \<Rightarrow> particle list \<Rightarrow> fl list \<Rightarrow> (particle list \<times> nat list) outcome" where
  "resample self e w x logw =
     (let w' = w\<lparr>rng_draws := Suc (rng_draws w)\<rparr>
      in if systematic_resampling self
         then (let indexes = systematic_indexes (torch_rand e (rng_draws w)) logw
               in case index_rows x indexes of
                    Inl err \<Rightarrow> (w', Inl err)
                  | Inr x_selected \<Rightarrow> (w', Inr (x_selected, indexes)))
         else (case torch_multinomial e (rng_draws w) (softmax logw) (length x) of
                 Inl err \<Rightarrow> (w', Inl err)
               | Inr indexes \<Rightarrow>
                   (case index_rows x indexes of
                      Inl err \<Rightarrow> (w', Inl err)
                    | Inr x_selected \<Rightarrow> (w', Inr (x_selected, indexes)))))"

section \<open>The sample driver\<close>

text \<open>
  The diagnostic series (\<^verbatim>\<open>A_list\<close>, \<^verbatim>\<open>ESS_list\<close>, \<^verbatim>\<open>eps_list\<close>, ...) and the plotting
  calls do not influence what \<^verbatim>\<open>sample\<close> returns and are left out (the image sink is
  taken to accept every figure); what is kept of them are the exceptions that computing
  the series can raise.
\<close>

definition has_nan :: "fl list \<Rightarrow> bool" where
  "has_nan a = list_ex is_nan a"

definition has_nan_X :: "particle list \<Rightarrow> bool" where
  "has_nan_X x = list_ex (list_ex is_nan) x"

definition fl_sum :: "fl list \<Rightarrow> fl" where
  "fl_sum xs = foldl fl_add (Fin 0) xs"

text \<open>\<^verbatim>\<open>.mean()\<close>: the mean of an empty tensor is NaN.\<close>

definition fl_mean :: "fl list \<Rightarrow> fl" where
  "fl_mean xs = (if xs = [] then NaN else smul (1 / real (length xs)) (fl_sum xs))"

text \<open>\<^verbatim>\<open>init_timesteps\<close>: \<^verbatim>\<open>torch.linspace(0, 1, num_timesteps + 1)\<close>.\<close>

definition linspace01 :: "nat \<Rightarrow> real list" where
  "linspace01 steps =
     (if steps = 1 then [0] else map (\<lambda>k. real k / real (steps - 1)) [0..<steps])"

definition init_timesteps :: "config \<Rightarrow> error + real list" where
  "init_timesteps self =
     (if num_timesteps self + 1 < 0 then Inl RuntimeError
      else Inr (linspace01 (nat (num_timesteps self + 1))))"

text \<open>The slices \<^verbatim>\<open>[X[i : i + n] for i in range(0, len(X), n)]\<close> for a positive step.\<close>

function slices :: "nat \<Rightarrow> 'a list \<Rightarrow> 'a list list" where
  "slices n xs = (if n = 0 \<or> xs = [] then [] else take n xs # slices n (drop n xs))"
  by pat_completeness auto
termination
  by (relation "measure (\<lambda>(n, xs). length xs)") auto

declare slices.simps [simp del]

definition batches :: "int \<Rightarrow> 'a list \<Rightarrow> error + 'a list list" where
  "batches bs xs =
     (if bs = 0 then Inl (ValueError ''range() arg 3 must not be zero'')
      else if bs < 0 then Inr []
      else Inr (slices (nat bs) xs))"

text \<open>
  The input filter of \<^verbatim>\<open>sample\<close>: \<^verbatim>\<open>proposal_samples[energy < cutoff]\<close>, a boolean mask
  whose length has to be that of the pool.
\<close>

definition mask_select :: "'a list \<Rightarrow> bool list \<Rightarrow> error + 'a list" where
  "mask_select xs keep =
     (if length keep \<noteq> length xs then Inl IndexError
      else Inr (map fst (filter snd (zip xs keep))))"

definition init_filter :: "config \<Rightarrow> energy \<Rightarrow> particle list \<Rightarrow> error + particle list" where
  "init_filter self target_energy proposal_samples =
     (case input_energy_cutoff self of
        None \<Rightarrow> Inr proposal_samples
      | Some cutoff \<Rightarrow>
          (let proposal_samples_energy = target_energy proposal_samples
           in mask_select proposal_samples
                (map (\<lambda>en. fl_lt en cutoff) proposal_samples_energy)))"

text \<open>
  The energy series of the plots: the target energies of all batches are concatenated
  (an empty list of batches raises), then the interpolated energy of each batch is
  computed, with its assertions.
\<close>

fun interpolation_checks :: "energy \<Rightarrow> energy \<Rightarrow> real \<Rightarrow> particle list list \<Rightarrow> error + unit" where
  "interpolation_checks src tgt t [] = Inr ()"
| "interpolation_checks src tgt t (X_batch # rest) =
     (case linear_energy_interpolation src tgt t X_batch of
        Inl err \<Rightarrow> Inl err
      | Inr _ \<Rightarrow> interpolation_checks src tgt t rest)"

definition plot_energies :: "config \<Rightarrow> energy \<Rightarrow> energy \<Rightarrow> real \<Rightarrow> particle list \<Rightarrow> error + unit" where
  "plot_energies self src tgt t x =
     (if \<not> do_energy_plots self then Inr ()
      else case batches (batch_size self) x of
             Inl err \<Rightarrow> Inl err
           | Inr X_batches \<Rightarrow>
               if X_batches = [] then Inl (ValueError ''need at least one array to concatenate'')
               else interpolation_checks src tgt t X_batches)"

text \<open>
  The inner loop over the zipped batches: the NaN check on the incoming batch, the kernel
  call (logged), and, with energy plots, the interpolated energy of the moved batch.
\<close>

fun kernel_batches ::
  "config \<Rightarrow> env \<Rightarrow> energy \<Rightarrow> energy \<Rightarrow> real \<Rightarrow> real \<Rightarrow> world \<Rightarrow> (particle list \<times> fl list) list
   \<Rightarrow> (particle list list \<times> fl list list \<times> fl list list) outcome" where
  "kernel_batches self e src tgt t dt w [] = (w, Inr ([], [], []))"
| "kernel_batches self e src tgt t dt w ((X_batch, A_batch) # rest) =
     (if has_nan_X X_batch then (w, Inl (ValueError ''X contains NaNs''))
      else
        (let w1 = w\<lparr>kernel_calls := kernel_calls w @ [(t, dt)]\<rparr>
         in case mcmc_kernel e (length (kernel_calls w)) (step_size w) src tgt t X_batch A_batch dt of
              Inl err \<Rightarrow> (w1, Inl err)
            | Inr (X_new, A_new, acceptance_rate) \<Rightarrow>
                (case (if do_energy_plots self
                       then linear_energy_interpolation src tgt t X_new else Inr []) of
                   Inl err \<Rightarrow> (w1, Inl err)
                 | Inr _ \<Rightarrow>
                     (case kernel_batches self e src tgt t dt w1 rest of
                        (w2, Inl err) \<Rightarrow> (w2, Inl err)
                      | (w2, Inr (Xs, As, rates)) \<Rightarrow>
                          (w2, Inr (X_new # Xs, A_new # As, acceptance_rate # rates))))))"

text \<open>The loop state: \<^verbatim>\<open>X\<close>, \<^verbatim>\<open>A\<close>, \<^verbatim>\<open>particle_ids\<close> and \<^verbatim>\<open>t_previous\<close>.\<close>

record smc_state =
  st_X :: "particle list"
  st_A :: "fl list"
  st_particle_ids :: "nat list"
  st_t_previous :: real

text \<open>
  The resampling inside an iteration: the resampler, the reset of the weights with
  \<^verbatim>\<open>torch.ones_like(A)\<close>, the re-indexing of the lineage ids (whose unique ratio divides
  by their number) and the energy series of the plots at \<open>t + 1e-9\<close>.
\<close>

definition resample_branch ::
  "config \<Rightarrow> env \<Rightarrow> energy \<Rightarrow> energy \<Rightarrow> real \<Rightarrow> nat list \<Rightarrow> world \<Rightarrow> particle list \<Rightarrow> fl list
   \<Rightarrow> smc_state outcome" where
  "resample_branch self e src tgt t particle_ids w X A =
     (case resample self e w X A of
        (w3, Inl err) \<Rightarrow> (w3, Inl err)
      | (w3, Inr (X_sel, indexes)) \<Rightarrow>
          (case index_rows particle_ids indexes of
             Inl err \<Rightarrow> (w3, Inl err)
           | Inr ids \<Rightarrow>
               if ids = [] then (w3, Inl ZeroDivisionError)
               else (case plot_energies self src tgt (t + 1 / 10 ^ 9) X_sel of
                       Inl err \<Rightarrow> (w3, Inl err)
                     | Inr _ \<Rightarrow>
                         (w3, Inr \<lparr>st_X = X_sel,
                                   st_A = replicate (length A) (Fin 1),
                                   st_particle_ids = ids,
                                   st_t_previous = t\<rparr>))))"

text \<open>
  The part of one iteration after the batches have been processed, from the
  concatenation to the optional resampling.  The logging condition evaluates
  \<^verbatim>\<open>(j + 1) % log_freq\<close> only when neither array has a NaN.
\<close>

definition after_kernel ::
  "config \<Rightarrow> env \<Rightarrow> energy \<Rightarrow> energy \<Rightarrow> nat \<Rightarrow> real \<Rightarrow> nat list
   \<Rightarrow> world \<Rightarrow> particle list list \<Rightarrow> fl list list \<Rightarrow> fl list list \<Rightarrow> smc_state outcome" where
  "after_kernel self e src tgt j t particle_ids w1 X_batches A_batches rates =
     (if X_batches = [] \<or> A_batches = [] \<or> rates = [] then (w1, Inl RuntimeError)
      else
        (let X = concat X_batches;
             A = concat A_batches;
             acceptance_rate = fl_mean (concat rates);
             w2 = (if adaptive_step_size self
                   then w1\<lparr>step_size := update_step_size (step_size w1) acceptance_rate\<rparr>
                   else w1)
         in if \<not> has_nan_X X \<and> \<not> has_nan A \<and> log_freq self = 0 then (w2, Inl ZeroDivisionError)
            else if has_nan_X X then (w2, Inl (ValueError ''X has NaNs''))
            else if has_nan A then (w2, Inl (ValueError ''A has NaNs''))
            else if particle_ids = [] then (w2, Inl ZeroDivisionError)
            else if fl_lt (sampling_efficiency e A) (ess_threshold self)
                    \<and> int j + 1 \<noteq> num_timesteps self
            then resample_branch self e src tgt t particle_ids w2 X A
            else (w2, Inr \<lparr>st_X = X, st_A = A, st_particle_ids = particle_ids,
                           st_t_previous = t\<rparr>)))"

text \<open>
  One iteration of the outer loop, for the pair \<open>(j, t)\<close> of the enumeration: first the
  slicing into batches and the pass of the kernel over the zipped batches, then the part
  after it.  Batches beyond the shorter of the two batch lists are not visited by the
  \<^verbatim>\<open>zip\<close> and are concatenated unchanged.
\<close>

definition kernel_pass ::
  "config \<Rightarrow> env \<Rightarrow> energy \<Rightarrow> energy \<Rightarrow> world \<Rightarrow> smc_state \<Rightarrow> real
   \<Rightarrow> (particle list list \<times> fl list list \<times> fl list list) outcome" where
  "kernel_pass self e src tgt w st t =
     (case batches (batch_size self) (st_X st) of
        Inl err \<Rightarrow> (w, Inl err)
      | Inr X_batches \<Rightarrow>
          (case batches (batch_size self) (st_A st) of
             Inl err \<Rightarrow> (w, Inl err)
           | Inr A_batches \<Rightarrow>
               (let dt = t - st_t_previous st;
                    n = min (length X_batches) (length A_batches)
                in case kernel_batches self e src tgt t dt w (zip X_batches A_batches) of
                     (w1, Inl err) \<Rightarrow> (w1, Inl err)
                   | (w1, Inr (Xs, As, rates)) \<Rightarrow>
                       (w1, Inr (Xs @ drop n X_batches, As @ drop n A_batches, rates)))))"

definition smc_step ::
  "config \<Rightarrow> env \<Rightarrow> energy \<Rightarrow> energy \<Rightarrow> world \<Rightarrow> smc_state \<Rightarrow> nat \<times> real \<Rightarrow> smc_state outcome" where
  "smc_step self e src tgt w st jt =
     (case kernel_pass self e src tgt w st (snd jt) of
        (w1, Inl err) \<Rightarrow> (w1, Inl err)
      | (w1, Inr (X_batches, A_batches, rates)) \<Rightarrow>
          after_kernel self e src tgt (fst jt) (snd jt) (st_particle_ids st) w1
            X_batches A_batches rates)"

fun smc_loop ::
  "config \<Rightarrow> env \<Rightarrow> energy \<Rightarrow> energy \<Rightarrow> world \<Rightarrow> smc_state \<Rightarrow> (nat \<times> real) list \<Rightarrow> smc_state outcome" where
  "smc_loop self e src tgt w st [] = (w, Inr st)"
| "smc_loop self e src tgt w st (jt # rest) =
     (case smc_step self e src tgt w st jt of
        (w1, Inl err) \<Rightarrow> (w1, Inl err)
      | (w1, Inr st1) \<Rightarrow> smc_loop self e src tgt w1 st1 rest)"

text \<open>
  \<^verbatim>\<open>sample\<close>.  The result \<open>None\<close> stands for \<^verbatim>\<open>(None, None)\<close>.  After the loop the final
  resampling is done; the log line after it reads the loop variable \<^verbatim>\<open>j\<close>, which is
  unbound when the loop body never ran.
\<close>

definition final_resample ::
  "config \<Rightarrow> env \<Rightarrow> particle list \<Rightarrow> world \<Rightarrow> smc_state
   \<Rightarrow> (particle list \<times> fl list) option outcome" where
  "final_resample self e proposal_samples w st =
     (case resample self e w (st_X st) (st_A st) of
        (w1, Inl err) \<Rightarrow> (w1, Inl err)
      | (w1, Inr (X_sel, indexes)) \<Rightarrow>
          (case index_rows (st_particle_ids st) indexes of
             Inl err \<Rightarrow> (w1, Inl err)
           | Inr ids \<Rightarrow>
               if ids = [] then (w1, Inl ZeroDivisionError)
               else if num_timesteps self = 0 then (w1, Inl NameError)
               else if map length X_sel \<noteq> map length proposal_samples
               then (w1, Inl (AssertionError ''shape mismatch''))
               else (w1, Inr (Some (X_sel, st_A st)))))"

text \<open>
  The state before the loop: unit weights \<^verbatim>\<open>torch.ones(X.shape[0])\<close>, lineage ids
  \<^verbatim>\<open>torch.arange(X.shape[0])\<close> and \<^verbatim>\<open>t_previous = 0.0\<close>.
\<close>

definition init_state :: "particle list \<Rightarrow> smc_state" where
  "init_state proposal_samples =
     \<lparr>st_X = proposal_samples,
      st_A = replicate (length proposal_samples) (Fin 1),
      st_particle_ids = [0..<length proposal_samples],
      st_t_previous = 0\<rparr>"

definition sample ::
  "config \<Rightarrow> env \<Rightarrow> particle list \<Rightarrow> energy \<Rightarrow> energy \<Rightarrow> world
   \<Rightarrow> (particle list \<times> fl list) option outcome" where
  "sample self e proposal_samples0 source_energy target_energy w =
     (if \<not> enabled self then (w, Inr None)
      else case init_filter self target_energy proposal_samples0 of
             Inl err \<Rightarrow> (w, Inl err)
           | Inr proposal_samples \<Rightarrow>
               (case init_timesteps self of
                  Inl err \<Rightarrow> (w, Inl err)
                | Inr timesteps \<Rightarrow>
                    if timesteps = [] then (w, Inl IndexError)
                    else (case plot_energies self source_energy target_energy (timesteps ! 0)
                                 proposal_samples of
                            Inl err \<Rightarrow> (w, Inl err)
                          | Inr _ \<Rightarrow>
                              (case smc_loop self e source_energy target_energy w
                                      (init_state proposal_samples)
                                      (enumerate 0 (butlast timesteps)) of
                                 (w1, Inl err) \<Rightarrow> (w1, Inl err)
                               | (w1, Inr st) \<Rightarrow>
                                   final_resample self e proposal_samples w1 st))))"

section \<open>Notions used in the statements\<close>





text \<open>
  A deterministic kernel that acts on each particle independently: a move \<open>k\<close> on one
  particle and its log-weight, applied to every row of the batch; the acceptance rate is
  per particle.
\<close>

definition lift_kernel ::
  "(real \<Rightarrow> energy \<Rightarrow> energy \<Rightarrow> real \<Rightarrow> particle \<Rightarrow> fl \<Rightarrow> real \<Rightarrow> particle \<times> fl \<times> fl)
   \<Rightarrow> nat \<Rightarrow> real \<Rightarrow> energy \<Rightarrow> energy \<Rightarrow> real \<Rightarrow> particle list \<Rightarrow> fl list \<Rightarrow> real
   \<Rightarrow> error + (particle list \<times> fl list \<times> fl list)" where
  "lift_kernel k n eps src tgt t x logw dt =
     Inr (map (\<lambda>(p, a). fst (k eps src tgt t p a dt)) (zip x logw),
          map (\<lambda>(p, a). fst (snd (k eps src tgt t p a dt))) (zip x logw),
          map (\<lambda>(p, a). snd (snd (k eps src tgt t p a dt))) (zip x logw))"




text \<open>
  The kernel invocations of a run in which the kernel is called \<open>n\<^sub>k\<close> times (once per batch)
  at each time \<open>t\<^sub>k\<close> of a schedule, with \<open>dt = t\<^sub>k - t\<^sub>k\<^sub>-\<^sub>1\<close>.
\<close>

fun expected_calls :: "real \<Rightarrow> real list \<Rightarrow> nat list \<Rightarrow> (real \<times> real) list" where
  "expected_calls t_previous (t # ts) (n # ns) =
     replicate n (t, t - t_previous) @ expected_calls t ts ns"
| "expected_calls t_previous _ _ = []"

text \<open>The process state after the step-size controller has run at the end of a pass.\<close>

definition adapt :: "config \<Rightarrow> world \<Rightarrow> fl list list \<Rightarrow> world" where
  "adapt self w rates =
     (if adaptive_step_size self
      then w\<lparr>step_size := update_step_size (step_size w) (fl_mean (concat rates))\<rparr> else w)"

text \<open>Two process states that differ at most in the log of kernel invocations.\<close>

definition same_rng :: "world \<Rightarrow> world \<Rightarrow> bool" where
  "same_rng w w' = (rng_draws w = rng_draws w' \<and> step_size w = step_size w')"

text \<open>
  The run of \<^verbatim>\<open>sample\<close> from process state \<open>w\<close> arrives at the iteration \<open>jt\<close> of its
  loop in process state \<open>w1\<close> and loop state \<open>st1\<close>.
\<close>

definition reaches ::
  "config \<Rightarrow> env \<Rightarrow> particle list \<Rightarrow> energy \<Rightarrow> energy \<Rightarrow> world \<Rightarrow> world \<Rightarrow> smc_state
   \<Rightarrow> nat \<times> real \<Rightarrow> bool" where
  "reaches self e x0 src tgt w w1 st1 jt =
     (enabled self \<and>
      (\<exists>ps ts jts1 jts2.
         init_filter self tgt x0 = Inr ps \<and> init_timesteps self = Inr ts \<and> ts \<noteq> [] \<and>
         plot_energies self src tgt (ts ! 0) ps = Inr () \<and>
         enumerate 0 (butlast ts) = jts1 @ jt # jts2 \<and>
         smc_loop self e src tgt w (init_state ps) jts1 = (w1, Inr st1)))"

section \<open>Example inputs\<close>

text \<open>
  Concrete inputs, used to instantiate the theorems below: energies (a constant one, and
  the first coordinate of the particle) and pools.
\<close>

definition const_energy :: "fl \<Rightarrow> energy" where
  "const_energy v x = replicate (length x) v"

fun first_coordinate :: "particle \<Rightarrow> fl" where
  "first_coordinate [] = NaN"
| "first_coordinate (c # _) = c"

definition coordinate_energy :: energy where
  "coordinate_energy x = map first_coordinate x"

definition pool2 :: "particle list" where
  "pool2 = [[Fin 5], [Fin 7]]"


definition pool_nan :: "particle list" where
  "pool_nan = [[NaN], [Fin 7]]"

text \<open>
  Moves on one particle: one that keeps the particle and adds one to its log-weight, and
  two that corrupt the coordinates, respectively the log-weight.
\<close>

definition bump_move :: "real \<Rightarrow> energy \<Rightarrow> energy \<Rightarrow> real \<Rightarrow> particle \<Rightarrow> fl \<Rightarrow> real \<Rightarrow> particle \<times> fl \<times> fl" where
  "bump_move eps src tgt t p a dt = (p, fl_add a (Fin 1), Fin 1)"

definition nan_x_move :: "real \<Rightarrow> energy \<Rightarrow> energy \<Rightarrow> real \<Rightarrow> particle \<Rightarrow> fl \<Rightarrow> real \<Rightarrow> particle \<times> fl \<times> fl" where
  "nan_x_move eps src tgt t p a dt = ([NaN], a, Fin 1)"

definition nan_w_move :: "real \<Rightarrow> energy \<Rightarrow> energy \<Rightarrow> real \<Rightarrow> particle \<Rightarrow> fl \<Rightarrow> real \<Rightarrow> particle \<times> fl \<times> fl" where
  "nan_w_move eps src tgt t p a dt = (p, NaN, Fin 1)"

text \<open>
  Collaborators built from these moves (a constant effective sample size, the uniform
  draw 1/2, a multinomial draw that always selects position 0), and an initial process
  state with the default step size \<open>1e-7\<close>.
\<close>

definition env0 :: env where
  "env0 = \<lparr>mcmc_kernel = lift_kernel bump_move,
            sampling_efficiency = (\<lambda>A. Fin 1),
            torch_rand = (\<lambda>k. 1 / 2),
            torch_multinomial = (\<lambda>k p n. if p = [] then Inl RuntimeError else Inr (replicate n 0))\<rparr>"

definition env_nan_x :: env where
  "env_nan_x = env0\<lparr>mcmc_kernel := lift_kernel nan_x_move\<rparr>"

definition env_nan_w :: env where
  "env_nan_w = env0\<lparr>mcmc_kernel := lift_kernel nan_w_move\<rparr>"

definition w0 :: world where
  "w0 = \<lparr>rng_draws = 0, kernel_calls = [], step_size = 1 / 10 ^ 7\<rparr>"

text \<open>
  Configurations: one time step, batches of two, resampling by threshold disabled, with
  an energy cutoff (\<open>cfg0\<close>) and without (\<open>cfg2\<close>); and two time steps with batches of
  one particle and a threshold above the effective sample size reported by \<open>env0\<close>, so
  that the first step resamples (\<open>cfg1\<close>).
\<close>

definition cfg0 :: config where
  "cfg0 = \<lparr>batch_size = 2, num_timesteps = 1, ess_threshold = Fin (- 1),
     systematic_resampling = True, adaptive_step_size = False, warmup = 1 / 10,
     enabled = True, do_energy_plots = False, log_freq = 10,
     input_energy_cutoff = Some (Fin 2)\<rparr>"

definition cfg2 :: config where
  "cfg2 = cfg0\<lparr>input_energy_cutoff := None\<rparr>"

definition cfg1 :: config where
  "cfg1 = \<lparr>batch_size = 1, num_timesteps = 2, ess_threshold = Fin 2,
     systematic_resampling = True, adaptive_step_size = False, warmup = 1 / 10,
     enabled = True, do_energy_plots = False, log_freq = 10,
     input_energy_cutoff = None\<rparr>"

section \<open>Properties of the step-size controller\<close>

text \<open>
  C8: for every observed mean acceptance rate r, \<^verbatim>\<open>update_step_size\<close> multiplies the step
  size by 1.1 when r > 0.6, divides it by 1.1 when r < 0.55, and leaves it unchanged when
  0.55 <= r <= 0.6.
\<close>

theorem update_step_size_cases:
  "(fl_gt r (Fin (6 / 10)) \<longrightarrow> update_step_size eps r = eps * (11 / 10)) \<and>
   (fl_lt r (Fin (55 / 100)) \<longrightarrow> update_step_size eps r = eps / (11 / 10)) \<and>
   (fl_ge r (Fin (55 / 100)) \<and> fl_le r (Fin (6 / 10)) \<longrightarrow> update_step_size eps r = eps)"
  by (cases r) (auto simp: update_step_size_def fl_gt_def fl_le_def)

theorem update_step_size_cases_witness:
  "fl_gt (Fin (7 / 10)) (Fin (6 / 10)) \<and> update_step_size 1 (Fin (7 / 10)) = 11 / 10 \<and>
   fl_lt (Fin (1 / 2)) (Fin (55 / 100)) \<and> update_step_size 1 (Fin (1 / 2)) = 10 / 11 \<and>
   fl_ge (Fin (58 / 100)) (Fin (55 / 100)) \<and> fl_le (Fin (58 / 100)) (Fin (6 / 10)) \<and>
   update_step_size 1 (Fin (58 / 100)) = 1"
  using update_step_size_cases [of "Fin (7 / 10)" 1]
        update_step_size_cases [of "Fin (1 / 2)" 1]
        update_step_size_cases [of "Fin (58 / 100)" 1]
  by (simp add: fl_gt_def fl_le_def)

section \<open>Properties of the energy interpolation\<close>

lemma smul_one: "smul 1 a = a"
  by (cases a) simp_all

lemma smul_zero_fin: "is_fin a \<Longrightarrow> smul 0 a = Fin 0"
  by (cases a) simp_all

lemma fl_add_zero_right: "fl_add a (Fin 0) = a"
  by (cases a) simp_all

lemma fl_add_zero_left: "fl_add (Fin 0) a = a"
  by (cases a) simp_all

lemma map2_add_zero_right:
  "length xs = length ys \<Longrightarrow> list_all is_fin ys \<Longrightarrow>
   map2 fl_add (map (smul 1) xs) (map (smul 0) ys) = xs"
  by (induction xs ys rule: list_induct2)
     (simp_all add: smul_one smul_zero_fin fl_add_zero_right)

lemma map2_add_zero_left:
  "length xs = length ys \<Longrightarrow> list_all is_fin xs \<Longrightarrow>
   map2 fl_add (map (smul 0) xs) (map (smul 1) ys) = ys"
  by (induction xs ys rule: list_induct2)
     (simp_all add: smul_one smul_zero_fin fl_add_zero_left)

text \<open>
  C6, as stated, fails: with a target energy of \<open>+inf\<close> the interpolation at \<open>t = 0\<close> is
  \<open>1 * E_source + 0 * inf = NaN\<close>, not \<open>E_source\<close>.
\<close>

theorem linear_energy_interpolation_inf_counterexample:
  "linear_energy_interpolation (const_energy (Fin 1)) (const_energy PInf) 0 [[Fin 0]] = Inr [NaN] \<and>
   const_energy (Fin 1) [[Fin 0]] = [Fin 1]"
  by (simp add: linear_energy_interpolation_def const_energy_def)

text \<open>
  C6, amended: when both energy functions return vectors of the batch length,
  \<^verbatim>\<open>linear_energy_interpolation\<close> returns the vector whose entries are
  \<open>(1 - t) * E_source(x)\<^sub>i + t * E_target(x)\<^sub>i\<close>; at \<open>t = 0\<close> it is \<open>E_source(x)\<close> provided
  every entry of \<open>E_target(x)\<close> is finite, and at \<open>t = 1\<close> it is \<open>E_target(x)\<close> provided every
  entry of \<open>E_source(x)\<close> is finite.
\<close>

theorem linear_energy_interpolation_formula:
  assumes "length (source_energy x) = length x" and "length (target_energy x) = length x"
  shows "(\<exists>en. linear_energy_interpolation source_energy target_energy t x = Inr en \<and>
               length en = length x \<and>
               (\<forall>i < length x. en ! i = fl_add (smul (1 - t) (source_energy x ! i))
                                               (smul t (target_energy x ! i)))) \<and>
         (list_all is_fin (target_energy x) \<longrightarrow>
            linear_energy_interpolation source_energy target_energy 0 x = Inr (source_energy x)) \<and>
         (list_all is_fin (source_energy x) \<longrightarrow>
            linear_energy_interpolation source_energy target_energy 1 x = Inr (target_energy x))"
  using assms
  by (simp add: linear_energy_interpolation_def Let_def map2_add_zero_right map2_add_zero_left)

theorem linear_energy_interpolation_formula_witness:
  "length (coordinate_energy [[Fin 2], [Fin 4]]) = length [[Fin 2], [Fin (4::real)]] \<and>
   length (const_energy (Fin 6) [[Fin 2], [Fin 4]]) = length [[Fin 2], [Fin (4::real)]] \<and>
   list_all is_fin (const_energy (Fin 6) [[Fin 2], [Fin 4]]) \<and>
   list_all is_fin (coordinate_energy [[Fin 2], [Fin 4]]) \<and>
   linear_energy_interpolation coordinate_energy (const_energy (Fin 6)) (1 / 2) [[Fin 2], [Fin 4]]
     = Inr [Fin 4, Fin 5] \<and>
   linear_energy_interpolation coordinate_energy (const_energy (Fin 6)) 0 [[Fin 2], [Fin 4]]
     = Inr [Fin 2, Fin 4] \<and>
   linear_energy_interpolation coordinate_energy (const_energy (Fin 6)) 1 [[Fin 2], [Fin 4]]
     = Inr [Fin 6, Fin 6]"
proof -
  have h1: "length (coordinate_energy [[Fin 2], [Fin 4]]) = length [[Fin 2], [Fin (4::real)]]"
    by (simp add: coordinate_energy_def)
  have h2: "length (const_energy (Fin 6) [[Fin 2], [Fin 4]]) = length [[Fin 2], [Fin (4::real)]]"
    by (simp add: const_energy_def)
  from linear_energy_interpolation_formula
         [of coordinate_energy "[[Fin 2], [Fin 4]]" "const_energy (Fin 6)" "1 / 2", OF h1 h2]
  obtain en where
    en: "linear_energy_interpolation coordinate_energy (const_energy (Fin 6)) (1 / 2)
           [[Fin 2], [Fin 4]] = Inr en"
    and len: "length en = 2"
    and ent: "\<forall>i<2. en ! i = fl_add (smul (1 - 1 / 2) (coordinate_energy [[Fin 2], [Fin 4]] ! i))
                                    (smul (1 / 2) (const_energy (Fin 6) [[Fin 2], [Fin 4]] ! i))"
    and at0: "linear_energy_interpolation coordinate_energy (const_energy (Fin 6)) 0
           [[Fin 2], [Fin 4]] = Inr (coordinate_energy [[Fin 2], [Fin 4]])"
    and at1: "linear_energy_interpolation coordinate_energy (const_energy (Fin 6)) 1
           [[Fin 2], [Fin 4]] = Inr (const_energy (Fin 6) [[Fin 2], [Fin 4]])"
    by (auto simp: coordinate_energy_def const_energy_def)
  from ent have e0: "en ! 0 = Fin 4" and e1: "en ! 1 = Fin 5"
    by (simp_all add: coordinate_energy_def const_energy_def)
  from len e0 e1 have "en = [Fin 4, Fin 5]"
    by (cases en; cases "tl en") auto
  with en at0 at1 h1 h2 show ?thesis
    by (simp add: coordinate_energy_def const_energy_def)
qed

section \<open>Properties of the input filter\<close>

lemma mask_select_nths:
  "length xs = length ks \<Longrightarrow>
   map fst (filter snd (zip xs ks)) = nths xs {i. i < length xs \<and> ks ! i}"
proof (induction xs ks rule: list_induct2)
  case Nil
  then show ?case by simp
next
  case (Cons x xs k ks)
  then show ?case by (simp add: nths_Cons)
qed

text \<open>
  C9: when an input energy cutoff is configured, the pool after the input filter consists
  of exactly the input particles whose target energy is strictly below the cutoff, in
  their original relative order (\<open>nths\<close> keeps the entries at the given positions, in
  order).
\<close>

theorem init_filter_cutoff:
  assumes "input_energy_cutoff self = Some cutoff"
    and "length (target_energy proposal_samples) = length proposal_samples"
  shows "init_filter self target_energy proposal_samples =
         Inr (nths proposal_samples
                {i. i < length proposal_samples \<and>
                    fl_lt (target_energy proposal_samples ! i) cutoff})"
proof -
  let ?ks = "map (\<lambda>en. fl_lt en cutoff) (target_energy proposal_samples)"
  have len: "length proposal_samples = length ?ks"
    using assms(2) by simp
  have "{i. i < length proposal_samples \<and> ?ks ! i} =
        {i. i < length proposal_samples \<and> fl_lt (target_energy proposal_samples ! i) cutoff}"
    using assms(2) by auto
  with mask_select_nths [OF len] show ?thesis
    using assms by (simp add: init_filter_def mask_select_def)
qed

theorem init_filter_cutoff_witness:
  "input_energy_cutoff cfg0 = Some (Fin 2) \<and>
   length (coordinate_energy [[Fin 1], [Fin 3], [Fin 0]]) = length [[Fin 1], [Fin 3], [Fin (0::real)]] \<and>
   init_filter cfg0 coordinate_energy [[Fin 1], [Fin 3], [Fin 0]] = Inr [[Fin 1], [Fin 0]]"
proof -
  have h1: "input_energy_cutoff cfg0 = Some (Fin 2)"
    by (simp add: cfg0_def)
  have h2: "length (coordinate_energy [[Fin 1], [Fin 3], [Fin 0]])
            = length [[Fin 1], [Fin 3], [Fin (0::real)]]"
    by (simp add: coordinate_energy_def)
  show ?thesis
    using h1 h2
      init_filter_cutoff [of cfg0 "Fin 2" coordinate_energy "[[Fin 1], [Fin 3], [Fin 0]]", OF h1 h2]
    by (simp add: coordinate_energy_def nths_Cons)
qed

section \<open>Properties of the resampler\<close>

lemma searchsorted1_le: "searchsorted1 c v \<le> length c"
  by (induction c) simp_all

















lemma index_rows_Inr:
  "index_rows x indexes = Inr sel \<Longrightarrow>
   sel = map (\<lambda>i. x ! i) indexes \<and> (\<forall>i \<in> set indexes. i < length x)"
  by (auto simp: index_rows_def list_all_iff split: if_splits)









section \<open>Properties of the sample driver\<close>

lemma kernel_batches_world:
  "rng_draws (fst (kernel_batches self e src tgt t dt w bs)) = rng_draws w \<and>
   step_size (fst (kernel_batches self e src tgt t dt w bs)) = step_size w"
proof (induction bs arbitrary: w)
  case Nil
  then show ?case by simp
next
  case (Cons b bs)
  obtain xb ab where b: "b = (xb, ab)" by (cases b)
  let ?w1 = "w\<lparr>kernel_calls := kernel_calls w @ [(t, dt)]\<rparr>"
  from Cons [of ?w1] show ?case
    unfolding b by (auto simp: Let_def split: sum.splits prod.splits)
qed

lemma kernel_batches_success:
  "kernel_batches self e src tgt t dt w bs = (w', Inr (Xs, As, rates)) \<Longrightarrow>
   kernel_calls w' = kernel_calls w @ replicate (length bs) (t, dt) \<and>
   length Xs = length bs \<and> length As = length bs \<and> length rates = length bs"
proof (induction bs arbitrary: w Xs As rates)
  case Nil
  then show ?case by simp
next
  case (Cons b bs)
  obtain xb ab where b: "b = (xb, ab)" by (cases b)
  let ?w1 = "w\<lparr>kernel_calls := kernel_calls w @ [(t, dt)]\<rparr>"
  from Cons.prems obtain Xs' As' rates' x' a' r' where
    rest: "kernel_batches self e src tgt t dt ?w1 bs = (w', Inr (Xs', As', rates'))"
    and eq: "Xs = x' # Xs'" "As = a' # As'" "rates = r' # rates'"
    unfolding b by (auto simp: Let_def split: if_splits sum.splits prod.splits)
  from Cons.IH [OF rest] show ?case
    unfolding eq by (simp add: replicate_append_same)
qed

lemma resample_world:
  "fst (resample self e w x logw) = w\<lparr>rng_draws := Suc (rng_draws w)\<rparr>"
  by (simp add: resample_def Let_def split: sum.splits)

lemma resample_snd_cong:
  "rng_draws w = rng_draws w' \<Longrightarrow> snd (resample self e w x logw) = snd (resample self e w' x logw)"
  by (simp add: resample_def Let_def split: sum.splits)

lemma resample_eq:
  "resample self e w x logw = (w\<lparr>rng_draws := Suc (rng_draws w)\<rparr>, snd (resample self e w x logw))"
  using resample_world [of self e w x logw] by (metis prod.collapse)

lemma resample_branch_world:
  "fst (resample_branch self e src tgt t ids w X A) = w\<lparr>rng_draws := Suc (rng_draws w)\<rparr>"
  unfolding resample_branch_def
  by (subst resample_eq) (simp split: sum.splits prod.splits)

lemma resample_branch_success:
  assumes "snd (resample_branch self e src tgt t ids w X A) = Inr st'"
  shows "st_A st' = replicate (length A) (Fin 1) \<and> st_t_previous st' = t \<and>
         (\<exists>indexes. snd (resample self e w X A) = Inr (st_X st', indexes) \<and>
                     index_rows ids indexes = Inr (st_particle_ids st'))"
  using assms unfolding resample_branch_def
  by (subst (asm) resample_eq) (auto split: sum.splits prod.splits if_splits)

lemma adapt_fields: "rng_draws (adapt self w rates) = rng_draws w"
  "kernel_calls (adapt self w rates) = kernel_calls w"
  by (simp_all add: adapt_def)

lemma after_kernel_world:
  "kernel_calls (fst (after_kernel self e src tgt j t ids w Xb Ab rates)) = kernel_calls w"
  by (simp add: after_kernel_def Let_def resample_branch_world)

lemma after_kernel_success:
  assumes "after_kernel self e src tgt j t ids w Xb Ab rates = (w', Inr st')"
  shows "st_t_previous st' = t \<and> Xb \<noteq> [] \<and> Ab \<noteq> [] \<and> rates \<noteq> [] \<and>
         \<not> has_nan_X (concat Xb) \<and> \<not> has_nan (concat Ab) \<and>
         (if fl_lt (sampling_efficiency e (concat Ab)) (ess_threshold self)
               \<and> int j + 1 \<noteq> num_timesteps self
          then rng_draws w' = Suc (rng_draws w) \<and>
               st_A st' = replicate (length (concat Ab)) (Fin 1) \<and>
               (\<exists>indexes. snd (resample self e (adapt self w rates) (concat Xb) (concat Ab))
                             = Inr (st_X st', indexes))
          else rng_draws w' = rng_draws w \<and> st_X st' = concat Xb \<and> st_A st' = concat Ab \<and>
               st_particle_ids st' = ids \<and> w' = adapt self w rates)"
proof -
  let ?w2 = "adapt self w rates"
  let ?X = "concat Xb" and ?A = "concat Ab"
  from assms have ne: "Xb \<noteq> []" "Ab \<noteq> []" "rates \<noteq> []"
    by (auto simp: after_kernel_def split: if_splits)
  from assms ne have nn: "\<not> has_nan_X ?X" "\<not> has_nan ?A" "ids \<noteq> []"
    by (auto simp: after_kernel_def Let_def split: if_splits)
  show ?thesis
  proof (cases "fl_lt (sampling_efficiency e ?A) (ess_threshold self)
                 \<and> int j + 1 \<noteq> num_timesteps self")
    case True
    with assms ne nn have rb: "resample_branch self e src tgt t ids ?w2 ?X ?A = (w', Inr st')"
      by (auto simp: after_kernel_def Let_def adapt_def split: if_splits)
    from rb have "snd (resample_branch self e src tgt t ids ?w2 ?X ?A) = Inr st'" by simp
    from resample_branch_success [OF this]
    have s: "st_A st' = replicate (length ?A) (Fin 1)" "st_t_previous st' = t"
      "\<exists>indexes. snd (resample self e ?w2 ?X ?A) = Inr (st_X st', indexes)"
      by blast+
    from rb resample_branch_world [of self e src tgt t ids ?w2 ?X ?A]
    have "rng_draws w' = Suc (rng_draws w)" by (simp add: adapt_fields)
    with s True ne nn show ?thesis by simp
  next
    case False
    with assms ne nn show ?thesis
      by (auto simp: after_kernel_def Let_def adapt_def split: if_splits)
  qed
qed

lemma kernel_pass_success:
  assumes "kernel_pass self e src tgt w st t = (w1, Inr (Xb, Ab, rates))"
  shows "kernel_calls w1 = kernel_calls w @ replicate (length rates) (t, t - st_t_previous st) \<and>
         rng_draws w1 = rng_draws w \<and> step_size w1 = step_size w"
proof -
  from assms obtain XB AB where
    xb: "batches (batch_size self) (st_X st) = Inr XB" and
    ab: "batches (batch_size self) (st_A st) = Inr AB"
    by (auto simp: kernel_pass_def split: sum.splits)
  let ?kb = "kernel_batches self e src tgt t (t - st_t_previous st) w (zip XB AB)"
  from assms xb ab obtain Xs As where kb: "?kb = (w1, Inr (Xs, As, rates))"
    by (auto simp: kernel_pass_def Let_def split: sum.splits prod.splits)
  from kernel_batches_success [OF kb] kernel_batches_world [of self e src tgt t "t - st_t_previous st" w "zip XB AB"] kb
  show ?thesis by simp
qed

lemma smc_step_success:
  assumes "smc_step self e src tgt w st jt = (w', Inr st')"
  shows "\<exists>n. 1 \<le> n \<and>
           kernel_calls w' = kernel_calls w @ replicate n (snd jt, snd jt - st_t_previous st) \<and>
           st_t_previous st' = snd jt"
proof -
  from assms obtain w1 Xb Ab rates where
    kp: "kernel_pass self e src tgt w st (snd jt) = (w1, Inr (Xb, Ab, rates))" and
    ak: "after_kernel self e src tgt (fst jt) (snd jt) (st_particle_ids st) w1 Xb Ab rates
           = (w', Inr st')"
    by (auto simp: smc_step_def split: sum.splits prod.splits)
  from after_kernel_success [OF ak] have "rates \<noteq> []" "st_t_previous st' = snd jt" by simp_all
  moreover from after_kernel_world [of self e src tgt "fst jt" "snd jt" "st_particle_ids st" w1 Xb Ab rates] ak
  have "kernel_calls w' = kernel_calls w1" by simp
  moreover note kernel_pass_success [OF kp]
  ultimately show ?thesis
    by (intro exI [of _ "length rates"]) (simp add: Suc_le_eq)
qed

lemma smc_loop_calls:
  "smc_loop self e src tgt w st jts = (w', Inr st') \<Longrightarrow>
   \<exists>ns. length ns = length jts \<and> (\<forall>n \<in> set ns. 1 \<le> n) \<and>
        kernel_calls w' = kernel_calls w @ expected_calls (st_t_previous st) (map snd jts) ns"
proof (induction jts arbitrary: w st)
  case Nil
  then show ?case by simp
next
  case (Cons jt jts)
  from Cons.prems obtain w1 st1 where
    step: "smc_step self e src tgt w st jt = (w1, Inr st1)" and
    rest: "smc_loop self e src tgt w1 st1 jts = (w', Inr st')"
    by (auto split: sum.splits prod.splits)
  from smc_step_success [OF step] obtain n where n: "1 \<le> n"
    "kernel_calls w1 = kernel_calls w @ replicate n (snd jt, snd jt - st_t_previous st)"
    "st_t_previous st1 = snd jt" by blast
  from Cons.IH [OF rest] obtain ns where ns: "length ns = length jts" "\<forall>n \<in> set ns. 1 \<le> n"
    "kernel_calls w' = kernel_calls w1 @ expected_calls (st_t_previous st1) (map snd jts) ns"
    by blast
  show ?case
    using n ns by (intro exI [of _ "n # ns"]) simp
qed

lemma expected_calls_times:
  "length ns = length ts \<Longrightarrow> \<forall>n \<in> set ns. 1 \<le> n \<Longrightarrow>
   fst ` set (expected_calls tp ts ns) = set ts"
proof (induction tp ts ns rule: expected_calls.induct)
  case (1 tp t ts n ns)
  then have "n \<noteq> 0" by auto
  with 1 show ?case by (auto simp: image_Un)
qed simp_all

lemma expected_calls_hd:
  "1 \<le> n \<Longrightarrow> hd (expected_calls tp (t # ts) (n # ns)) = (t, t - tp)"
  by (cases n) simp_all

lemma timesteps_enum:
  assumes "1 \<le> num_timesteps self"
  shows "\<exists>ts. init_timesteps self = Inr ts \<and> ts \<noteq> [] \<and> ts ! 0 = 0 \<and>
           enumerate 0 (butlast ts)
             = map (\<lambda>k. (k, real k / real_of_int (num_timesteps self))) [0..<nat (num_timesteps self)]"
proof -
  let ?T = "num_timesteps self"
  let ?f = "\<lambda>k. real k / real_of_int ?T"
  have n: "nat (?T + 1) = Suc (nat ?T)" "nat (?T + 1) \<noteq> 1" using assms by auto
  have r: "real (nat ?T) = real_of_int ?T" using assms by simp
  have ts: "init_timesteps self = Inr (map ?f [0..<Suc (nat ?T)])"
    using assms n r by (simp add: init_timesteps_def linspace01_def del: upt_Suc)
  have "butlast (map ?f [0..<Suc (nat ?T)]) = map ?f [0..<nat ?T]"
    by (simp add: butlast_append)
  moreover have "enumerate 0 (map ?f [0..<nat ?T]) = map (\<lambda>k. (k, ?f k)) [0..<nat ?T]"
    by (rule nth_equalityI) (simp_all add: nth_enumerate_eq)
  moreover have "map ?f [0..<Suc (nat ?T)] ! 0 = 0"
    by (simp add: nth_append upt_rec [of 0])
  ultimately show ?thesis using ts by (simp del: upt_Suc)
qed

lemma final_resample_success:
  assumes "final_resample self e ps w1 st = (w', Inr r)"
  shows "num_timesteps self \<noteq> 0 \<and> w' = w1\<lparr>rng_draws := Suc (rng_draws w1)\<rparr> \<and>
         (\<exists>X_sel indexes. r = Some (X_sel, st_A st) \<and>
            snd (resample self e w1 (st_X st) (st_A st)) = Inr (X_sel, indexes) \<and>
            map length X_sel = map length ps)"
  using assms unfolding final_resample_def
  by (subst (asm) resample_eq) (auto split: sum.splits prod.splits if_splits)

lemma sample_success:
  assumes "sample self e x0 src tgt w = (w', Inr (Some res))"
  shows "\<exists>ps w1 st. enabled self \<and> init_filter self tgt x0 = Inr ps \<and> 1 \<le> num_timesteps self \<and>
           smc_loop self e src tgt w (init_state ps)
             (map (\<lambda>k. (k, real k / real_of_int (num_timesteps self)))
                [0..<nat (num_timesteps self)]) = (w1, Inr st) \<and>
           final_resample self e ps w1 st = (w', Inr (Some res))"
proof -
  from assms have en: "enabled self"
    by (auto simp: sample_def split: if_splits)
  with assms obtain ps ts w1 st where
    ps: "init_filter self tgt x0 = Inr ps" and
    ts: "init_timesteps self = Inr ts" and
    loop: "smc_loop self e src tgt w (init_state ps) (enumerate 0 (butlast ts)) = (w1, Inr st)" and
    fin: "final_resample self e ps w1 st = (w', Inr (Some res))"
    by (auto simp: sample_def split: sum.splits prod.splits if_splits)
  from assms en ps ts have tne: "ts \<noteq> []"
    by (auto simp: sample_def split: sum.splits prod.splits if_splits)
  from final_resample_success [OF fin] have "num_timesteps self \<noteq> 0" by simp
  moreover from ts tne have "0 \<le> num_timesteps self"
    by (auto simp: init_timesteps_def linspace01_def split: if_splits)
  ultimately have T: "1 \<le> num_timesteps self" by simp
  from timesteps_enum [OF T] ts loop
  have "smc_loop self e src tgt w (init_state ps)
          (map (\<lambda>k. (k, real k / real_of_int (num_timesteps self)))
             [0..<nat (num_timesteps self)]) = (w1, Inr st)"
    by auto
  with en ps T fin show ?thesis by blast
qed

lemma kernel_schedule_of_returning_run:
  assumes "sample self e x0 src tgt w = (w', Inr (Some res))"
    and "kernel_calls w = []"
  shows "1 \<le> num_timesteps self \<and>
         (\<exists>ns. length ns = nat (num_timesteps self) \<and> (\<forall>n \<in> set ns. 1 \<le> n) \<and>
               kernel_calls w' =
                 expected_calls 0
                   (map (\<lambda>k. real k / real_of_int (num_timesteps self))
                      [0..<nat (num_timesteps self)]) ns) \<and>
         fst ` set (kernel_calls w') =
           {real k / real_of_int (num_timesteps self) | k. k < nat (num_timesteps self)} \<and>
         1 \<notin> fst ` set (kernel_calls w') \<and>
         kernel_calls w' \<noteq> [] \<and> hd (kernel_calls w') = (0, 0)"
proof -
  let ?T = "num_timesteps self"
  let ?ts = "map (\<lambda>k. real k / real_of_int ?T) [0..<nat ?T]"
  let ?jts = "map (\<lambda>k. (k, real k / real_of_int ?T)) [0..<nat ?T]"
  from sample_success [OF assms(1)] obtain ps w1 st where
    T: "1 \<le> ?T" and
    loop: "smc_loop self e src tgt w (init_state ps) ?jts = (w1, Inr st)" and
    fin: "final_resample self e ps w1 st = (w', Inr (Some res))"
    by blast
  have snd_jts: "map snd ?jts = ?ts" by (simp add: comp_def)
  from smc_loop_calls [OF loop] assms(2) obtain ns where
    ns: "length ns = nat ?T" "\<forall>n \<in> set ns. 1 \<le> n"
    "kernel_calls w1 = expected_calls 0 ?ts ns"
    unfolding snd_jts by (auto simp: init_state_def)
  from final_resample_success [OF fin] have w': "kernel_calls w' = kernel_calls w1" by simp
  have times: "fst ` set (kernel_calls w') = set ?ts"
    using ns w' by (simp add: expected_calls_times)
  have set_ts: "set ?ts = {real k / real_of_int ?T | k. k < nat ?T}"
    by auto
  have no1: "1 \<notin> set ?ts"
  proof
    assume "1 \<in> set ?ts"
    then obtain k where k: "k < nat ?T" "real k / real_of_int ?T = 1" by auto
    from T k(2) have "real k = real_of_int ?T" by (simp add: field_simps)
    with k(1) T show False by linarith
  qed
  from T obtain m where m: "nat ?T = Suc m" by (cases "nat ?T") auto
  with ns(1) obtain n ns' where nsc: "ns = n # ns'" by (cases ns) auto
  have ts_c: "?ts = 0 # map (\<lambda>k. real k / real_of_int ?T) [1..<Suc m]"
    unfolding m by (simp add: upt_rec [of 0] del: upt_Suc)
  from ns(2) nsc have n1: "1 \<le> n" by simp
  have hd0: "hd (kernel_calls w') = (0, 0)"
    unfolding w' ns(3) nsc ts_c using expected_calls_hd [OF n1, of 0 0] by simp
  have ne: "kernel_calls w' \<noteq> []"
    unfolding w' ns(3) nsc ts_c using n1 by (cases n) simp_all
  from T ns w' times set_ts no1 hd0 ne show ?thesis by auto
qed

lemma kernel_batches_times:
  "fst ` set (kernel_calls (fst (kernel_batches self e src tgt t dt w bs)))
   \<subseteq> fst ` set (kernel_calls w) \<union> {t}"
proof (induction bs arbitrary: w)
  case Nil
  then show ?case by auto
next
  case (Cons b bs)
  obtain xb ab where b: "b = (xb, ab)" by (cases b)
  let ?w1 = "w\<lparr>kernel_calls := kernel_calls w @ [(t, dt)]\<rparr>"
  have w1: "fst ` set (kernel_calls ?w1) \<subseteq> fst ` set (kernel_calls w) \<union> {t}" by auto
  from Cons [of ?w1] w1
  have ih: "fst ` set (kernel_calls (fst (kernel_batches self e src tgt t dt ?w1 bs)))
            \<subseteq> fst ` set (kernel_calls w) \<union> {t}" by blast
  show ?case
  proof (cases "kernel_batches self e src tgt t dt ?w1 bs")
    case (Pair w2 r)
    with ih have "fst ` set (kernel_calls w2) \<subseteq> fst ` set (kernel_calls w) \<union> {t}" by simp
    with Pair w1 show ?thesis
      unfolding b by (auto simp: Let_def split: sum.splits prod.splits)
  qed
qed

lemma kernel_pass_times:
  "fst ` set (kernel_calls (fst (kernel_pass self e src tgt w st t)))
   \<subseteq> fst ` set (kernel_calls w) \<union> {t}"
proof (cases "batches (batch_size self) (st_X st)")
  case (Inl a)
  then show ?thesis by (auto simp: kernel_pass_def)
next
  case xb: (Inr XB)
  show ?thesis
  proof (cases "batches (batch_size self) (st_A st)")
    case (Inl a)
    with xb show ?thesis by (auto simp: kernel_pass_def)
  next
    case ab: (Inr AB)
    let ?kb = "kernel_batches self e src tgt t (t - st_t_previous st) w (zip XB AB)"
    have "fst (kernel_pass self e src tgt w st t) = fst ?kb"
      using xb ab by (simp add: kernel_pass_def Let_def split: sum.splits prod.splits)
    with kernel_batches_times [of self e src tgt t "t - st_t_previous st" w "zip XB AB"]
    show ?thesis by simp
  qed
qed

lemma smc_step_times:
  "fst ` set (kernel_calls (fst (smc_step self e src tgt w st jt)))
   \<subseteq> fst ` set (kernel_calls w) \<union> {snd jt}"
proof (cases "kernel_pass self e src tgt w st (snd jt)")
  case (Pair w1 r)
  with kernel_pass_times [of self e src tgt w st "snd jt"]
  have w1: "fst ` set (kernel_calls w1) \<subseteq> fst ` set (kernel_calls w) \<union> {snd jt}" by simp
  show ?thesis
  proof (cases r)
    case (Inl err)
    with Pair w1 show ?thesis by (auto simp: smc_step_def)
  next
    case (Inr v)
    obtain Xb Ab rates where v: "v = (Xb, Ab, rates)" by (cases v)
    from Pair Inr v w1
      after_kernel_world [of self e src tgt "fst jt" "snd jt" "st_particle_ids st" w1 Xb Ab rates]
    show ?thesis by (auto simp: smc_step_def)
  qed
qed

lemma smc_loop_times:
  "fst ` set (kernel_calls (fst (smc_loop self e src tgt w st jts)))
   \<subseteq> fst ` set (kernel_calls w) \<union> snd ` set jts"
proof (induction jts arbitrary: w st)
  case Nil
  then show ?case by auto
next
  case (Cons jt jts)
  show ?case
  proof (cases "smc_step self e src tgt w st jt")
    case (Pair w1 r)
    with smc_step_times [of self e src tgt w st jt]
    have w1: "fst ` set (kernel_calls w1) \<subseteq> fst ` set (kernel_calls w) \<union> {snd jt}" by simp
    show ?thesis
    proof (cases r)
      case (Inl err)
      with Pair w1 show ?thesis by auto
    next
      case (Inr st1)
      from Cons [of w1 st1] w1 Pair Inr show ?thesis by auto
    qed
  qed
qed

lemma final_resample_calls:
  "kernel_calls (fst (final_resample self e ps w1 st)) = kernel_calls w1"
  unfolding final_resample_def
  by (subst resample_eq) (simp split: sum.splits prod.splits)

lemma butlast_linspace01:
  "set (butlast (linspace01 (Suc n))) = {real k / real n | k. k < n}"
proof (cases "n = 0")
  case True
  then show ?thesis by (simp add: linspace01_def)
next
  case False
  then have "linspace01 (Suc n) = map (\<lambda>k. real k / real n) [0..<n] @ [real n / real n]"
    by (simp add: linspace01_def)
  then show ?thesis by (auto simp: butlast_append)
qed

lemma sample_times:
  assumes "kernel_calls w = []"
  shows "fst ` set (kernel_calls (fst (sample self e x0 src tgt w)))
         \<subseteq> {real k / real_of_int (num_timesteps self) | k. k < nat (num_timesteps self)}"
proof (cases "init_timesteps self")
  case (Inl err)
  with assms show ?thesis
    by (simp add: sample_def split: sum.splits)
next
  case (Inr ts)
  show ?thesis
  proof (cases "0 \<le> num_timesteps self")
    case False
    with Inr have "ts = []"
      by (auto simp: init_timesteps_def linspace01_def split: if_splits)
    with Inr assms show ?thesis
      by (simp add: sample_def split: sum.splits)
  next
    case True
    then have "nat (num_timesteps self + 1) = Suc (nat (num_timesteps self))" by simp
    with Inr have ts: "ts = linspace01 (Suc (nat (num_timesteps self)))"
      by (auto simp: init_timesteps_def split: if_splits)
    have "snd ` set (enumerate 0 (butlast ts)) = set (butlast ts)"
      by (metis list.set_map map_snd_enumerate)
    also have "\<dots> = {real k / real_of_int (num_timesteps self) | k. k < nat (num_timesteps self)}"
      unfolding ts butlast_linspace01 using True by simp
    finally have sched: "snd ` set (enumerate 0 (butlast ts)) =
      {real k / real_of_int (num_timesteps self) | k. k < nat (num_timesteps self)}" .
    have loop: "fst ` set (kernel_calls (fst (smc_loop self e src tgt w st0 (enumerate 0 (butlast ts)))))
          \<subseteq> {real k / real_of_int (num_timesteps self) | k. k < nat (num_timesteps self)}" for st0
      using smc_loop_times [of self e src tgt w st0 "enumerate 0 (butlast ts)"] assms
      unfolding sched by simp
    show ?thesis
    proof (cases "enabled self")
      case False
      with assms show ?thesis by (simp add: sample_def)
    next
      case en: True
      show ?thesis
      proof (cases "init_filter self tgt x0")
        case (Inl err)
        with en assms show ?thesis by (simp add: sample_def)
      next
        case ps: (Inr ps)
        obtain w1 r where l: "smc_loop self e src tgt w (init_state ps) (enumerate 0 (butlast ts)) = (w1, r)"
          by (cases "smc_loop self e src tgt w (init_state ps) (enumerate 0 (butlast ts))")
        from loop [of "init_state ps"] l
        have w1: "fst ` set (kernel_calls w1)
          \<subseteq> {real k / real_of_int (num_timesteps self) | k. k < nat (num_timesteps self)}" by simp
        have "kernel_calls (fst (sample self e x0 src tgt w)) = [] \<or>
              kernel_calls (fst (sample self e x0 src tgt w)) = kernel_calls w1"
          using en ps Inr l assms final_resample_calls [of self e ps w1]
          by (auto simp: sample_def split: sum.splits prod.splits)
        with w1 show ?thesis by (elim disjE) simp_all
      qed
    qed
  qed
qed

lemma smc_loop_append:
  "smc_loop self e src tgt w st (jts1 @ jts2) =
     (case smc_loop self e src tgt w st jts1 of
        (w1, Inl err) \<Rightarrow> (w1, Inl err)
      | (w1, Inr st1) \<Rightarrow> smc_loop self e src tgt w1 st1 jts2)"
  by (induction jts1 arbitrary: w st) (auto split: sum.splits prod.splits)

lemma smc_loop_single:
  "smc_loop self e src tgt w st [jt] = smc_step self e src tgt w st jt"
  by (cases "smc_step self e src tgt w st jt") (auto split: sum.splits)

lemma resample_success:
  assumes "snd (resample self e w x logw) = Inr (x_selected, indexes)"
  shows "x_selected = map (\<lambda>i. x ! i) indexes \<and> (\<forall>i \<in> set indexes. i < length x)"
  using assms
  by (auto simp: resample_def Let_def split: sum.splits if_splits dest!: index_rows_Inr)

lemma smc_step_unfold:
  assumes "smc_step self e src tgt w st jt = (w', Inr st')"
  shows "\<exists>w1 Xb Ab rates.
           kernel_pass self e src tgt w st (snd jt) = (w1, Inr (Xb, Ab, rates)) \<and>
           after_kernel self e src tgt (fst jt) (snd jt) (st_particle_ids st) w1 Xb Ab rates
             = (w', Inr st')"
  using assms by (auto simp: smc_step_def split: sum.splits prod.splits)

lemma final_resample_of_returning_run:
  assumes "sample self e x0 src tgt w = (w', Inr (Some (Xf, Af)))"
  shows "\<exists>ps w_a st_a w_b Xb Ab rates indexes.
           1 \<le> num_timesteps self \<and>
           init_filter self tgt x0 = Inr ps \<and>
           smc_loop self e src tgt w (init_state ps)
             (map (\<lambda>k. (k, real k / real_of_int (num_timesteps self)))
                [0..<nat (num_timesteps self) - 1]) = (w_a, Inr st_a) \<and>
           kernel_pass self e src tgt w_a st_a
             (real (nat (num_timesteps self) - 1) / real_of_int (num_timesteps self))
             = (w_b, Inr (Xb, Ab, rates)) \<and>
           Af = concat Ab \<and>
           snd (resample self e w_b (concat Xb) (concat Ab)) = Inr (Xf, indexes) \<and>
           Xf = map (\<lambda>i. concat Xb ! i) indexes \<and>
           rng_draws w' = rng_draws w_b + 1"
proof -
  let ?T = "num_timesteps self"
  let ?f = "\<lambda>k. (k, real k / real_of_int ?T)"
  from sample_success [OF assms] obtain ps w1 st where
    ps: "init_filter self tgt x0 = Inr ps" and T: "1 \<le> ?T" and
    loop: "smc_loop self e src tgt w (init_state ps) (map ?f [0..<nat ?T]) = (w1, Inr st)" and
    fin: "final_resample self e ps w1 st = (w', Inr (Some (Xf, Af)))"
    by blast
  from T obtain m where m: "nat ?T = Suc m" by (cases "nat ?T") auto
  have split: "map ?f [0..<nat ?T] = map ?f [0..<m] @ [?f m]"
    unfolding m by simp
  from loop obtain w_a st_a where
    pre: "smc_loop self e src tgt w (init_state ps) (map ?f [0..<m]) = (w_a, Inr st_a)" and
    last: "smc_step self e src tgt w_a st_a (?f m) = (w1, Inr st)"
    unfolding split smc_loop_append
    by (auto simp: smc_loop_single split: sum.splits prod.splits)
  from smc_step_unfold [OF last] obtain w_b Xb Ab rates where
    kp: "kernel_pass self e src tgt w_a st_a (real m / real_of_int ?T) = (w_b, Inr (Xb, Ab, rates))" and
    ak: "after_kernel self e src tgt m (real m / real_of_int ?T) (st_particle_ids st_a) w_b Xb Ab rates
           = (w1, Inr st)"
    by auto
  have lastj: "int m + 1 = ?T" using m T by linarith
  from after_kernel_success [OF ak] lastj
  have st: "st_X st = concat Xb" "st_A st = concat Ab" "rng_draws w1 = rng_draws w_b"
    by (simp_all add: adapt_fields)
  from final_resample_success [OF fin] obtain indexes where
    f: "Af = st_A st" "w' = w1\<lparr>rng_draws := Suc (rng_draws w1)\<rparr>"
    "snd (resample self e w1 (st_X st) (st_A st)) = Inr (Xf, indexes)"
    by auto
  from f(3) st resample_snd_cong [of w1 w_b self e "concat Xb" "concat Ab"]
  have r: "snd (resample self e w_b (concat Xb) (concat Ab)) = Inr (Xf, indexes)" by simp
  from resample_success [OF r] have xf: "Xf = map (\<lambda>i. concat Xb ! i) indexes" by simp
  have "rng_draws w' = rng_draws w_b + 1" using f(2) st(3) by simp
  with T ps pre kp f(1) st(2) r xf show ?thesis
    unfolding m by (intro exI [of _ ps] exI [of _ w_a] exI [of _ st_a] exI [of _ w_b]
        exI [of _ Xb] exI [of _ Ab] exI [of _ rates] exI [of _ indexes]) simp
qed

text \<open>
  C5, amended: immediately after a resampling event performed inside the stepping loop
  (an iteration that took a draw from the resampler), the log-weight vector is all ones,
  of the length of the weights the kernel pass produced, and the particles are their
  resampling.  (The terminal resampling leaves the weights as they are.)
\<close>

theorem loop_resample_resets_weights:
  assumes "smc_step self e src tgt w st jt = (w', Inr st')"
    and "rng_draws w' \<noteq> rng_draws w"
  shows "st_A st' = replicate (length (st_A st')) (Fin 1) \<and>
         rng_draws w' = rng_draws w + 1 \<and>
         (\<exists>w1 Xb Ab rates indexes.
            kernel_pass self e src tgt w st (snd jt) = (w1, Inr (Xb, Ab, rates)) \<and>
            length (st_A st') = length (concat Ab) \<and>
            snd (resample self e w1 (concat Xb) (concat Ab)) = Inr (st_X st', indexes))"
proof -
  from smc_step_unfold [OF assms(1)] obtain w1 Xb Ab rates where
    kp: "kernel_pass self e src tgt w st (snd jt) = (w1, Inr (Xb, Ab, rates))" and
    ak: "after_kernel self e src tgt (fst jt) (snd jt) (st_particle_ids st) w1 Xb Ab rates
           = (w', Inr st')"
    by blast
  from kernel_pass_success [OF kp] have w1: "rng_draws w1 = rng_draws w" by simp
  let ?c = "fl_lt (sampling_efficiency e (concat Ab)) (ess_threshold self)
            \<and> int (fst jt) + 1 \<noteq> num_timesteps self"
  from after_kernel_success [OF ak] assms(2) w1 have c: ?c
    by (auto split: if_splits)
  with after_kernel_success [OF ak] obtain indexes where
    a: "rng_draws w' = Suc (rng_draws w1)"
    "st_A st' = replicate (length (concat Ab)) (Fin 1)"
    "snd (resample self e (adapt self w1 rates) (concat Xb) (concat Ab)) = Inr (st_X st', indexes)"
    by auto
  from a(3) resample_snd_cong [of "adapt self w1 rates" w1 self e "concat Xb" "concat Ab"]
  have r: "snd (resample self e w1 (concat Xb) (concat Ab)) = Inr (st_X st', indexes)"
    by (simp add: adapt_fields)
  from a(1,2) w1 kp r show ?thesis by auto
qed

lemma exp_half: "exp (x::real) / (exp x + exp x) = 1 / 2"
proof -
  have "exp x \<noteq> 0" by simp
  then show ?thesis by (simp add: field_simps)
qed

lemma systematic_two: "systematic_indexes (1 / 2) [Fin a, Fin a] = [0, 1]"
  by (simp add: systematic_indexes_def softmax_def exp_half cumsum_def searchsorted_def Let_def)

lemma resample_two:
  "resample cfg1 env0 w [p, q] [Fin a, Fin a]
   = (w\<lparr>rng_draws := Suc (rng_draws w)\<rparr>, Inr ([p, q], [0, 1]))"
  by (simp add: resample_def cfg1_def env0_def systematic_two index_rows_def Let_def)

lemma kernel_pass_two:
  "kernel_pass cfg1 env0 src tgt w
     \<lparr>st_X = pool2, st_A = [Fin 1, Fin 1], st_particle_ids = [0, 1], st_t_previous = tp\<rparr> t
   = (w\<lparr>kernel_calls := kernel_calls w @ [(t, t - tp), (t, t - tp)]\<rparr>,
      Inr ([[[Fin 5]], [[Fin 7]]], [[Fin 2], [Fin 2]], [[Fin 1], [Fin 1]]))"
  by (simp add: kernel_pass_def batches_def slices.simps cfg1_def env0_def lift_kernel_def bump_move_def
      has_nan_X_def Let_def pool2_def)

lemma step_first:
  "smc_step cfg1 env0 src tgt w0 (init_state pool2) (0, 0)
   = (\<lparr>rng_draws = 1, kernel_calls = [(0, 0), (0, 0)], step_size = 1 / 10 ^ 7\<rparr>,
      Inr \<lparr>st_X = pool2, st_A = [Fin 1, Fin 1], st_particle_ids = [0, 1], st_t_previous = 0\<rparr>)"
proof -
  have i: "init_state pool2
           = \<lparr>st_X = pool2, st_A = [Fin 1, Fin 1], st_particle_ids = [0, 1], st_t_previous = 0\<rparr>"
    by (simp add: init_state_def pool2_def upt_rec [of 0] upt_rec [of 1])
  have r: "resample cfg1 env0 w [[Fin 5], [Fin 7]] [Fin 2, Fin 2]
           = (w\<lparr>rng_draws := Suc (rng_draws w)\<rparr>, Inr (pool2, [0, 1]))" for w
    by (simp add: resample_two pool2_def)
  show ?thesis
    unfolding i smc_step_def kernel_pass_two
    by (simp add: after_kernel_def resample_branch_def r has_nan_X_def has_nan_def Let_def
        index_rows_def plot_energies_def w0_def)
       (simp add: cfg1_def env0_def)
qed

lemma step_second:
  "smc_step cfg1 env0 src tgt
     \<lparr>rng_draws = 1, kernel_calls = [(0, 0), (0, 0)], step_size = 1 / 10 ^ 7\<rparr>
     \<lparr>st_X = pool2, st_A = [Fin 1, Fin 1], st_particle_ids = [0, 1], st_t_previous = 0\<rparr>
     (1, 1 / 2)
   = (\<lparr>rng_draws = 1, kernel_calls = [(0, 0), (0, 0), (1 / 2, 1 / 2), (1 / 2, 1 / 2)],
        step_size = 1 / 10 ^ 7\<rparr>,
      Inr \<lparr>st_X = pool2, st_A = [Fin 2, Fin 2], st_particle_ids = [0, 1],
            st_t_previous = 1 / 2\<rparr>)"
  unfolding smc_step_def kernel_pass_two
  by (simp add: after_kernel_def has_nan_X_def has_nan_def Let_def pool2_def)
     (simp add: cfg1_def env0_def)

lemma run_two_steps:
  "sample cfg1 env0 pool2 (const_energy (Fin 0)) (const_energy (Fin 0)) w0
   = (\<lparr>rng_draws = 2, kernel_calls = [(0, 0), (0, 0), (1 / 2, 1 / 2), (1 / 2, 1 / 2)],
        step_size = 1 / 10 ^ 7\<rparr>,
      Inr (Some (pool2, [Fin 2, Fin 2])))"
proof -
  have up: "[0..<3] = [0, 1, 2]"
    by (simp add: numeral_3_eq_3)
  have ts: "init_timesteps cfg1 = Inr [0, 1 / 2, 1]"
    by (simp add: init_timesteps_def cfg1_def linspace01_def up)
  have en: "enumerate 0 (butlast [0, 1 / 2, 1::real]) = [(0, 0), (1, 1 / 2)]"
    by simp
  have f: "init_filter cfg1 tgt pool2 = Inr pool2" for tgt
    by (simp add: init_filter_def cfg1_def)
  have r: "resample cfg1 env0 w pool2 [Fin 2, Fin 2]
           = (w\<lparr>rng_draws := Suc (rng_draws w)\<rparr>, Inr (pool2, [0, 1]))" for w
    by (simp add: resample_two pool2_def)
  have pl: "plot_energies cfg1 src tgt t x = Inr ()" for src tgt t x
    by (simp add: plot_energies_def cfg1_def)
  have c: "enabled cfg1" "num_timesteps cfg1 = 2" by (simp_all add: cfg1_def)
  show ?thesis
    by (simp add: sample_def f ts en pl c step_first [simplified] step_second [simplified]
        final_resample_def r index_rows_def)
qed

lemma kernel_batches_Cons_Inr:
  assumes "snd (kernel_batches self e src tgt t dt w ((xb, ab) # bs)) = Inr r"
  shows "\<not> has_nan_X xb \<and>
         (\<exists>xn an rn. mcmc_kernel e (length (kernel_calls w)) (step_size w) src tgt t xb ab dt
                       = Inr (xn, an, rn) \<and>
            (do_energy_plots self \<longrightarrow> (\<exists>v. linear_energy_interpolation src tgt t xn = Inr v)) \<and>
            (\<exists>r'. snd (kernel_batches self e src tgt t dt
                         (w\<lparr>kernel_calls := kernel_calls w @ [(t, dt)]\<rparr>) bs) = Inr r'))"
  using assms by (auto simp: Let_def split: if_splits sum.splits prod.splits)

lemma kernel_batches_tail_error:
  assumes "snd (kernel_batches self e src tgt t dt w ((xb, ab) # bs)) = Inr r"
    and "snd (kernel_batches self e src tgt t dt
                (w\<lparr>kernel_calls := kernel_calls w @ [(t, dt)]\<rparr>) bs') = Inl err"
  shows "snd (kernel_batches self e src tgt t dt w ((xb, ab) # bs')) = Inl err"
  using kernel_batches_Cons_Inr [OF assms(1)] assms(2)
  by (auto simp: Let_def split: if_splits sum.splits prod.splits)

lemma kernel_batches_nan_at:
  "i < length bs \<Longrightarrow>
   snd (kernel_batches self e src tgt t dt w (take i bs)) = Inr r \<Longrightarrow>
   has_nan_X (fst (bs ! i)) \<Longrightarrow>
   snd (kernel_batches self e src tgt t dt w bs) = Inl (ValueError ''X contains NaNs'')"
proof (induction bs arbitrary: i w r)
  case Nil
  then show ?case by simp
next
  case (Cons b bs)
  obtain xb ab where b: "b = (xb, ab)" by (cases b)
  show ?case
  proof (cases i)
    case 0
    with Cons.prems b show ?thesis by simp
  next
    case (Suc i')
    let ?w1 = "w\<lparr>kernel_calls := kernel_calls w @ [(t, dt)]\<rparr>"
    from Cons.prems(2) have pre: "snd (kernel_batches self e src tgt t dt w ((xb, ab) # take i' bs)) = Inr r"
      unfolding Suc b by simp
    from kernel_batches_Cons_Inr [OF pre] obtain r' where
      r': "snd (kernel_batches self e src tgt t dt ?w1 (take i' bs)) = Inr r'" by blast
    from Cons.prems(1,3) Suc have "i' < length bs" "has_nan_X (fst (bs ! i'))" by simp_all
    from Cons.IH [OF this(1) r' this(2)]
    have "snd (kernel_batches self e src tgt t dt ?w1 bs) = Inl (ValueError ''X contains NaNs'')" .
    from kernel_batches_tail_error [OF pre this] show ?thesis
      unfolding b .
  qed
qed

lemma reaches_error:
  assumes "reaches self e x0 src tgt w w1 st1 jt"
    and "snd (smc_step self e src tgt w1 st1 jt) = Inl err"
  shows "snd (sample self e x0 src tgt w) = Inl err"
proof -
  from assms(1) obtain ps ts jts1 jts2 where
    en: "enabled self" and ps: "init_filter self tgt x0 = Inr ps" and
    ts: "init_timesteps self = Inr ts" "ts \<noteq> []" and
    pl: "plot_energies self src tgt (ts ! 0) ps = Inr ()" and
    sp: "enumerate 0 (butlast ts) = jts1 @ jt # jts2" and
    loop: "smc_loop self e src tgt w (init_state ps) jts1 = (w1, Inr st1)"
    unfolding reaches_def by blast
  obtain w2 where step: "smc_step self e src tgt w1 st1 jt = (w2, Inl err)"
    using assms(2) by (cases "smc_step self e src tgt w1 st1 jt") auto
  have "smc_loop self e src tgt w (init_state ps) (jts1 @ jt # jts2) = (w2, Inl err)"
    unfolding smc_loop_append loop using step by simp
  with en ps ts pl sp show ?thesis
    by (simp add: sample_def)
qed

lemma smc_step_kernel_error:
  "snd (kernel_pass self e src tgt w st (snd jt)) = Inl err \<Longrightarrow>
   snd (smc_step self e src tgt w st jt) = Inl err"
  by (cases "kernel_pass self e src tgt w st (snd jt)") (auto simp: smc_step_def)

lemma kernel_pass_batch_error:
  assumes "batches (batch_size self) (st_X st) = Inr XB"
    and "batches (batch_size self) (st_A st) = Inr AB"
    and "snd (kernel_batches self e src tgt t (t - st_t_previous st) w (zip XB AB)) = Inl err"
  shows "snd (kernel_pass self e src tgt w st t) = Inl err"
  using assms
  by (cases "kernel_batches self e src tgt t (t - st_t_previous st) w (zip XB AB)")
     (auto simp: kernel_pass_def Let_def)

lemma kernel_pass_nonempty:
  assumes "kernel_pass self e src tgt w st t = (w1, Inr (Xb, Ab, rates))" and "rates \<noteq> []"
  shows "Xb \<noteq> [] \<and> Ab \<noteq> []"
proof -
  from assms(1) obtain XB AB where
    xb: "batches (batch_size self) (st_X st) = Inr XB" and
    ab: "batches (batch_size self) (st_A st) = Inr AB"
    by (auto simp: kernel_pass_def split: sum.splits)
  let ?kb = "kernel_batches self e src tgt t (t - st_t_previous st) w (zip XB AB)"
  from assms(1) xb ab obtain Xs As where kb: "?kb = (w1, Inr (Xs, As, rates))"
    and eq: "Xb = Xs @ drop (min (length XB) (length AB)) XB"
            "Ab = As @ drop (min (length XB) (length AB)) AB"
    by (auto simp: kernel_pass_def Let_def split: sum.splits prod.splits)
  from kernel_batches_success [OF kb] assms(2) have "Xs \<noteq> []" "As \<noteq> []" by auto
  with eq show ?thesis by simp
qed

lemma after_kernel_nan:
  assumes "Xb \<noteq> []" "Ab \<noteq> []" "rates \<noteq> []"
  shows "has_nan_X (concat Xb) \<Longrightarrow>
           snd (after_kernel self e src tgt j t ids w Xb Ab rates) = Inl (ValueError ''X has NaNs'')"
    and "\<not> has_nan_X (concat Xb) \<Longrightarrow> has_nan (concat Ab) \<Longrightarrow>
           snd (after_kernel self e src tgt j t ids w Xb Ab rates) = Inl (ValueError ''A has NaNs'')"
  using assms by (simp_all add: after_kernel_def Let_def)

text \<open>
  C7: when the run of \<^verbatim>\<open>sample\<close> arrives at an iteration, then (1) if the batches before
  batch \<open>i\<close> pass and batch \<open>i\<close> of the coordinates contains a NaN, \<^verbatim>\<open>sample\<close> ends with
  the error \<^verbatim>\<open>ValueError("X contains NaNs")\<close>; (2) if the kernel pass completes and the
  concatenated coordinates contain a NaN, it ends with \<^verbatim>\<open>ValueError("X has NaNs")\<close>;
  (3) if the coordinates are clean and the concatenated weights contain a NaN, it ends
  with \<^verbatim>\<open>ValueError("A has NaNs")\<close>.  The error is the result of \<^verbatim>\<open>sample\<close>: nothing
  is retried.
\<close>

theorem nan_aborts_run:
  assumes "reaches self e x0 src tgt w w1 st1 jt"
  shows "(\<forall>XB AB i r.
            batches (batch_size self) (st_X st1) = Inr XB \<and>
            batches (batch_size self) (st_A st1) = Inr AB \<and>
            i < length XB \<and> i < length AB \<and>
            snd (kernel_batches self e src tgt (snd jt) (snd jt - st_t_previous st1) w1
                   (take i (zip XB AB))) = Inr r \<and>
            has_nan_X (XB ! i)
            \<longrightarrow> snd (sample self e x0 src tgt w) = Inl (ValueError ''X contains NaNs'')) \<and>
         (\<forall>w2 Xb Ab rates.
            kernel_pass self e src tgt w1 st1 (snd jt) = (w2, Inr (Xb, Ab, rates)) \<and>
            rates \<noteq> [] \<and> has_nan_X (concat Xb)
            \<longrightarrow> snd (sample self e x0 src tgt w) = Inl (ValueError ''X has NaNs'')) \<and>
         (\<forall>w2 Xb Ab rates.
            kernel_pass self e src tgt w1 st1 (snd jt) = (w2, Inr (Xb, Ab, rates)) \<and>
            rates \<noteq> [] \<and> \<not> has_nan_X (concat Xb) \<and> has_nan (concat Ab)
            \<longrightarrow> snd (sample self e x0 src tgt w) = Inl (ValueError ''A has NaNs''))"
proof (intro conjI allI impI)
  fix XB AB i r
  assume a: "batches (batch_size self) (st_X st1) = Inr XB \<and>
            batches (batch_size self) (st_A st1) = Inr AB \<and>
            i < length XB \<and> i < length AB \<and>
            snd (kernel_batches self e src tgt (snd jt) (snd jt - st_t_previous st1) w1
                   (take i (zip XB AB))) = Inr r \<and>
            has_nan_X (XB ! i)"
  then have "snd (kernel_batches self e src tgt (snd jt) (snd jt - st_t_previous st1) w1 (zip XB AB))
             = Inl (ValueError ''X contains NaNs'')"
    by (intro kernel_batches_nan_at [where i = i and r = r]) auto
  with a have "snd (kernel_pass self e src tgt w1 st1 (snd jt)) = Inl (ValueError ''X contains NaNs'')"
    by (intro kernel_pass_batch_error [where XB = XB and AB = AB]) simp_all
  then have "snd (smc_step self e src tgt w1 st1 jt) = Inl (ValueError ''X contains NaNs'')"
    by (rule smc_step_kernel_error)
  with assms show "snd (sample self e x0 src tgt w) = Inl (ValueError ''X contains NaNs'')"
    by (rule reaches_error)
next
  fix w2 Xb Ab rates
  assume a: "kernel_pass self e src tgt w1 st1 (snd jt) = (w2, Inr (Xb, Ab, rates)) \<and>
            rates \<noteq> [] \<and> has_nan_X (concat Xb)"
  then have ne: "Xb \<noteq> []" "Ab \<noteq> []" "rates \<noteq> []"
    using kernel_pass_nonempty [of self e src tgt w1 st1 "snd jt" w2 Xb Ab rates] by simp_all
  from a after_kernel_nan(1) [OF ne]
  have "snd (smc_step self e src tgt w1 st1 jt) = Inl (ValueError ''X has NaNs'')"
    by (simp add: smc_step_def)
  with assms show "snd (sample self e x0 src tgt w) = Inl (ValueError ''X has NaNs'')"
    by (rule reaches_error)
next
  fix w2 Xb Ab rates
  assume a: "kernel_pass self e src tgt w1 st1 (snd jt) = (w2, Inr (Xb, Ab, rates)) \<and>
            rates \<noteq> [] \<and> \<not> has_nan_X (concat Xb) \<and> has_nan (concat Ab)"
  then have ne: "Xb \<noteq> []" "Ab \<noteq> []" "rates \<noteq> []"
    using kernel_pass_nonempty [of self e src tgt w1 st1 "snd jt" w2 Xb Ab rates] by simp_all
  from a after_kernel_nan(2) [OF ne]
  have "snd (smc_step self e src tgt w1 st1 jt) = Inl (ValueError ''A has NaNs'')"
    by (simp add: smc_step_def)
  with assms show "snd (sample self e x0 src tgt w) = Inl (ValueError ''A has NaNs'')"
    by (rule reaches_error)
qed

lemma cfg1_timesteps: "init_timesteps cfg1 = Inr [0, 1 / 2, 1]"
proof -
  have up: "[0..<3] = [0, 1, 2]"
    by (simp add: numeral_3_eq_3)
  show ?thesis
    by (simp add: init_timesteps_def cfg1_def linspace01_def up)
qed

lemma reaches_first:
  "reaches cfg1 e x0 src tgt w w (init_state x0) (0, 0)"
proof -
  have "init_filter cfg1 tgt x0 = Inr x0"
    by (simp add: init_filter_def cfg1_def)
  moreover have "plot_energies cfg1 src tgt ([0, 1 / 2, 1] ! 0) x0 = Inr ()"
    by (simp add: plot_energies_def cfg1_def)
  moreover have "enumerate 0 (butlast [0, 1 / 2, 1::real]) = [] @ (0, 0) # [(1, 1 / 2)]"
    by simp
  moreover have "smc_loop cfg1 e src tgt w (init_state x0) [] = (w, Inr (init_state x0))"
    by simp
  moreover have "enabled cfg1" by (simp add: cfg1_def)
  ultimately show ?thesis
    unfolding reaches_def using cfg1_timesteps by blast
qed

lemma init_state_two: "init_state [p, q]
   = \<lparr>st_X = [p, q], st_A = [Fin 1, Fin 1], st_particle_ids = [0, 1], st_t_previous = 0\<rparr>"
  by (simp add: init_state_def upt_rec [of 0] upt_rec [of 1])

theorem nan_aborts_run_witness:
  "reaches cfg1 env0 pool_nan (const_energy (Fin 0)) (const_energy (Fin 0)) w0 w0
     (init_state pool_nan) (0, 0) \<and>
   snd (sample cfg1 env0 pool_nan (const_energy (Fin 0)) (const_energy (Fin 0)) w0)
     = Inl (ValueError ''X contains NaNs'') \<and>
   reaches cfg1 env_nan_x pool2 (const_energy (Fin 0)) (const_energy (Fin 0)) w0 w0
     (init_state pool2) (0, 0) \<and>
   snd (sample cfg1 env_nan_x pool2 (const_energy (Fin 0)) (const_energy (Fin 0)) w0)
     = Inl (ValueError ''X has NaNs'') \<and>
   reaches cfg1 env_nan_w pool2 (const_energy (Fin 0)) (const_energy (Fin 0)) w0 w0
     (init_state pool2) (0, 0) \<and>
   snd (sample cfg1 env_nan_w pool2 (const_energy (Fin 0)) (const_energy (Fin 0)) w0)
     = Inl (ValueError ''A has NaNs'')"
proof -
  let ?E = "const_energy (Fin 0)"
  note r1 = reaches_first [of env0 pool_nan ?E ?E w0]
  note r2 = reaches_first [of env_nan_x pool2 ?E ?E w0]
  note r3 = reaches_first [of env_nan_w pool2 ?E ?E w0]
  have b1: "batches (batch_size cfg1) (st_X (init_state pool_nan)) = Inr [[[NaN]], [[Fin 7]]]"
    by (simp add: batches_def slices.simps cfg1_def pool_nan_def init_state_two)
  have b2: "batches (batch_size cfg1) (st_A (init_state pool_nan)) = Inr [[Fin 1], [Fin 1]]"
    by (simp add: batches_def slices.simps cfg1_def pool_nan_def init_state_two)
  have k1: "snd (kernel_batches cfg1 env0 ?E ?E (snd (0::nat, 0::real))
                  (snd (0::nat, 0::real) - st_t_previous (init_state pool_nan)) w0
                  (take 0 (zip [[[NaN]], [[Fin 7]]] [[Fin 1], [Fin 1]]))) = Inr ([], [], [])"
    by simp
  have n1: "has_nan_X ([[[NaN]], [[Fin 7]]] ! 0)"
    by (simp add: has_nan_X_def)
  from nan_aborts_run [OF r1] b1 b2 k1 n1
  have s1: "snd (sample cfg1 env0 pool_nan ?E ?E w0) = Inl (ValueError ''X contains NaNs'')"
    by (metis length_Cons zero_less_Suc)
  have p2: "kernel_pass cfg1 env_nan_x ?E ?E w0 (init_state pool2) (snd (0::nat, 0::real))
            = (w0\<lparr>kernel_calls := [(0, 0), (0, 0)]\<rparr>,
               Inr ([[[NaN]], [[NaN]]], [[Fin 1], [Fin 1]], [[Fin 1], [Fin 1]]))"
    by (simp add: kernel_pass_def batches_def slices.simps cfg1_def env_nan_x_def env0_def lift_kernel_def
        nan_x_move_def has_nan_X_def Let_def pool2_def init_state_two w0_def)
  have n2: "[[Fin 1], [Fin (1::real)]] \<noteq> [] \<and> has_nan_X (concat [[[NaN]], [[NaN]]])"
    by (simp add: has_nan_X_def)
  from nan_aborts_run [OF r2] p2 n2
  have s2: "snd (sample cfg1 env_nan_x pool2 ?E ?E w0) = Inl (ValueError ''X has NaNs'')"
    by blast
  have p3: "kernel_pass cfg1 env_nan_w ?E ?E w0 (init_state pool2) (snd (0::nat, 0::real))
            = (w0\<lparr>kernel_calls := [(0, 0), (0, 0)]\<rparr>,
               Inr ([[[Fin 5]], [[Fin 7]]], [[NaN], [NaN]], [[Fin 1], [Fin 1]]))"
    by (simp add: kernel_pass_def batches_def slices.simps cfg1_def env_nan_w_def env0_def lift_kernel_def
        nan_w_move_def has_nan_X_def Let_def pool2_def init_state_two w0_def)
  have n3: "[[Fin 1], [Fin (1::real)]] \<noteq> [] \<and> \<not> has_nan_X (concat [[[Fin 5]], [[Fin 7]]]) \<and>
            has_nan (concat [[NaN], [NaN]])"
    by (simp add: has_nan_X_def has_nan_def)
  from nan_aborts_run [OF r3] p3 n3
  have s3: "snd (sample cfg1 env_nan_w pool2 ?E ?E w0) = Inl (ValueError ''A has NaNs'')"
    by blast
  from r1 s1 r2 s2 r3 s3 show ?thesis by blast
qed

text \<open>
  C10: started with an empty log, every kernel invocation of \<^verbatim>\<open>sample\<close> is at one of the
  first \<open>T\<close> schedule times \<open>k / T\<close>, \<open>k < T\<close>, and never at \<open>t = 1\<close>; when \<^verbatim>\<open>sample\<close>
  returns, the invocations are, for each of these times in order, one per batch with
  \<open>dt = t\<^sub>k - t\<^sub>k\<^sub>-\<^sub>1\<close>, every one of the \<open>T\<close> times occurs, and the first invocation is
  at \<open>t = 0\<close> with \<open>dt = 0\<close>.
\<close>

theorem sample_kernel_schedule:
  assumes "kernel_calls w = []"
  shows "fst ` set (kernel_calls (fst (sample self e x0 src tgt w)))
           \<subseteq> {real k / real_of_int (num_timesteps self) | k. k < nat (num_timesteps self)} \<and>
         1 \<notin> fst ` set (kernel_calls (fst (sample self e x0 src tgt w))) \<and>
         (\<forall>res. snd (sample self e x0 src tgt w) = Inr (Some res) \<longrightarrow>
            1 \<le> num_timesteps self \<and>
            (\<exists>ns. length ns = nat (num_timesteps self) \<and> (\<forall>n \<in> set ns. 1 \<le> n) \<and>
                  kernel_calls (fst (sample self e x0 src tgt w)) =
                    expected_calls 0
                      (map (\<lambda>k. real k / real_of_int (num_timesteps self))
                         [0..<nat (num_timesteps self)]) ns) \<and>
            fst ` set (kernel_calls (fst (sample self e x0 src tgt w))) =
              {real k / real_of_int (num_timesteps self) | k. k < nat (num_timesteps self)} \<and>
            kernel_calls (fst (sample self e x0 src tgt w)) \<noteq> [] \<and>
            hd (kernel_calls (fst (sample self e x0 src tgt w))) = (0, 0))"
proof -
  let ?T = "num_timesteps self"
  let ?w' = "fst (sample self e x0 src tgt w)"
  have sub: "fst ` set (kernel_calls ?w') \<subseteq> {real k / real_of_int ?T | k. k < nat ?T}"
    by (rule sample_times [OF assms])
  have no1: "1 \<notin> fst ` set (kernel_calls ?w')"
  proof
    assume "1 \<in> fst ` set (kernel_calls ?w')"
    with sub obtain k where k: "k < nat ?T" "1 = real k / real_of_int ?T" by auto
    from k(1) have T: "0 < ?T" by simp
    with k(2) have "real k = real_of_int ?T" by (simp add: field_simps)
    with k(1) T show False by linarith
  qed
  have succ: "1 \<le> ?T \<and>
            (\<exists>ns. length ns = nat ?T \<and> (\<forall>n \<in> set ns. 1 \<le> n) \<and>
                  kernel_calls ?w' =
                    expected_calls 0 (map (\<lambda>k. real k / real_of_int ?T) [0..<nat ?T]) ns) \<and>
            fst ` set (kernel_calls ?w') = {real k / real_of_int ?T | k. k < nat ?T} \<and>
            kernel_calls ?w' \<noteq> [] \<and> hd (kernel_calls ?w') = (0, 0)"
    if "snd (sample self e x0 src tgt w) = Inr (Some res)" for res
  proof -
    from that have "sample self e x0 src tgt w = (?w', Inr (Some res))"
      by (metis prod.collapse)
    from kernel_schedule_of_returning_run [OF this assms] show ?thesis by blast
  qed
  from sub no1 succ show ?thesis by blast
qed

theorem sample_kernel_schedule_witness:
  "kernel_calls w0 = [] \<and>
   snd (sample cfg1 env0 pool2 (const_energy (Fin 0)) (const_energy (Fin 0)) w0)
     = Inr (Some (pool2, [Fin 2, Fin 2])) \<and>
   kernel_calls (fst (sample cfg1 env0 pool2 (const_energy (Fin 0)) (const_energy (Fin 0)) w0))
     = [(0, 0), (0, 0), (1 / 2, 1 / 2), (1 / 2, 1 / 2)] \<and>
   fst ` set (kernel_calls
      (fst (sample cfg1 env0 pool2 (const_energy (Fin 0)) (const_energy (Fin 0)) w0)))
     = {real k / real_of_int (num_timesteps cfg1) | k. k < nat (num_timesteps cfg1)} \<and>
   1 \<notin> fst ` set (kernel_calls
      (fst (sample cfg1 env0 pool2 (const_energy (Fin 0)) (const_energy (Fin 0)) w0))) \<and>
   hd (kernel_calls
      (fst (sample cfg1 env0 pool2 (const_energy (Fin 0)) (const_energy (Fin 0)) w0))) = (0, 0)"
proof -
  have h: "kernel_calls w0 = []" by (simp add: w0_def)
  have s: "snd (sample cfg1 env0 pool2 (const_energy (Fin 0)) (const_energy (Fin 0)) w0)
     = Inr (Some (pool2, [Fin 2, Fin 2]))"
    by (simp add: run_two_steps)
  have c: "kernel_calls (fst (sample cfg1 env0 pool2 (const_energy (Fin 0)) (const_energy (Fin 0)) w0))
     = [(0, 0), (0, 0), (1 / 2, 1 / 2), (1 / 2, 1 / 2)]"
    by (simp add: run_two_steps)
  from sample_kernel_schedule [OF h, of cfg1 env0 pool2 "const_energy (Fin 0)" "const_energy (Fin 0)"] s
  show ?thesis using h c by blast
qed

lemma final_resample_world:
  "fst (final_resample self e ps w1 st) = w1\<lparr>rng_draws := Suc (rng_draws w1)\<rparr>"
  unfolding final_resample_def
  by (subst resample_eq) (simp split: sum.splits prod.splits)

text \<open>
  C4: whenever the loop of \<^verbatim>\<open>sample\<close> completes, exactly one more draw of the resampler
  is taken before \<^verbatim>\<open>sample\<close> ends, whatever the ESS threshold; and whenever \<^verbatim>\<open>sample\<close>
  returns particles \<open>Xf\<close> and weights \<open>Af\<close>, the steps before the last one led to a state
  from which the kernel pass of the last scheduled step produced batches \<open>Xb\<close>, \<open>Ab\<close>; the
  returned weights are exactly the concatenated \<open>Ab\<close> (not reset), the returned particles
  are the resampling of the concatenated \<open>Xb\<close> under those weights, and exactly one draw
  of the resampler lies between that kernel pass and the return.
\<close>

theorem sample_final_resample:
  "(\<forall>ps ts w1 st.
      enabled self \<and> init_filter self tgt x0 = Inr ps \<and> init_timesteps self = Inr ts \<and>
      ts \<noteq> [] \<and> plot_energies self src tgt (ts ! 0) ps = Inr () \<and>
      smc_loop self e src tgt w (init_state ps) (enumerate 0 (butlast ts)) = (w1, Inr st)
      \<longrightarrow> rng_draws (fst (sample self e x0 src tgt w)) = rng_draws w1 + 1) \<and>
   (\<forall>w' Xf Af.
      sample self e x0 src tgt w = (w', Inr (Some (Xf, Af))) \<longrightarrow>
      (\<exists>ps w_a st_a w_b Xb Ab rates indexes.
         1 \<le> num_timesteps self \<and>
         init_filter self tgt x0 = Inr ps \<and>
         smc_loop self e src tgt w (init_state ps)
           (map (\<lambda>k. (k, real k / real_of_int (num_timesteps self)))
              [0..<nat (num_timesteps self) - 1]) = (w_a, Inr st_a) \<and>
         kernel_pass self e src tgt w_a st_a
           (real (nat (num_timesteps self) - 1) / real_of_int (num_timesteps self))
           = (w_b, Inr (Xb, Ab, rates)) \<and>
         Af = concat Ab \<and>
         snd (resample self e w_b (concat Xb) (concat Ab)) = Inr (Xf, indexes) \<and>
         Xf = map (\<lambda>i. concat Xb ! i) indexes \<and>
         rng_draws w' = rng_draws w_b + 1))"
proof (intro conjI allI impI)
  fix ps ts w1 st
  assume a: "enabled self \<and> init_filter self tgt x0 = Inr ps \<and> init_timesteps self = Inr ts \<and>
      ts \<noteq> [] \<and> plot_energies self src tgt (ts ! 0) ps = Inr () \<and>
      smc_loop self e src tgt w (init_state ps) (enumerate 0 (butlast ts)) = (w1, Inr st)"
  then have "sample self e x0 src tgt w = final_resample self e ps w1 st"
    by (simp add: sample_def)
  then show "rng_draws (fst (sample self e x0 src tgt w)) = rng_draws w1 + 1"
    by (simp add: final_resample_world)
next
  fix w' Xf Af
  assume "sample self e x0 src tgt w = (w', Inr (Some (Xf, Af)))"
  then show "\<exists>ps w_a st_a w_b Xb Ab rates indexes.
         1 \<le> num_timesteps self \<and>
         init_filter self tgt x0 = Inr ps \<and>
         smc_loop self e src tgt w (init_state ps)
           (map (\<lambda>k. (k, real k / real_of_int (num_timesteps self)))
              [0..<nat (num_timesteps self) - 1]) = (w_a, Inr st_a) \<and>
         kernel_pass self e src tgt w_a st_a
           (real (nat (num_timesteps self) - 1) / real_of_int (num_timesteps self))
           = (w_b, Inr (Xb, Ab, rates)) \<and>
         Af = concat Ab \<and>
         snd (resample self e w_b (concat Xb) (concat Ab)) = Inr (Xf, indexes) \<and>
         Xf = map (\<lambda>i. concat Xb ! i) indexes \<and>
         rng_draws w' = rng_draws w_b + 1"
    by (rule final_resample_of_returning_run)
qed

theorem sample_final_resample_witness:
  "enabled cfg1 \<and>
   init_filter cfg1 (const_energy (Fin 0)) pool2 = Inr pool2 \<and>
   init_timesteps cfg1 = Inr [0, 1 / 2, 1] \<and>
   plot_energies cfg1 (const_energy (Fin 0)) (const_energy (Fin 0)) ([0, 1 / 2, 1] ! 0) pool2
     = Inr () \<and>
   smc_loop cfg1 env0 (const_energy (Fin 0)) (const_energy (Fin 0)) w0 (init_state pool2)
     (enumerate 0 (butlast [0, 1 / 2, 1]))
     = (\<lparr>rng_draws = 1, kernel_calls = [(0, 0), (0, 0), (1 / 2, 1 / 2), (1 / 2, 1 / 2)],
          step_size = 1 / 10 ^ 7\<rparr>,
        Inr \<lparr>st_X = pool2, st_A = [Fin 2, Fin 2], st_particle_ids = [0, 1],
              st_t_previous = 1 / 2\<rparr>) \<and>
   sample cfg1 env0 pool2 (const_energy (Fin 0)) (const_energy (Fin 0)) w0
     = (\<lparr>rng_draws = 2, kernel_calls = [(0, 0), (0, 0), (1 / 2, 1 / 2), (1 / 2, 1 / 2)],
          step_size = 1 / 10 ^ 7\<rparr>,
        Inr (Some (pool2, [Fin 2, Fin 2]))) \<and>
   rng_draws (fst (sample cfg1 env0 pool2 (const_energy (Fin 0)) (const_energy (Fin 0)) w0)) = 2 \<and>
   (\<exists>w_b Xb Ab rates indexes.
      kernel_pass cfg1 env0 (const_energy (Fin 0)) (const_energy (Fin 0))
        \<lparr>rng_draws = 1, kernel_calls = [(0, 0), (0, 0)], step_size = 1 / 10 ^ 7\<rparr>
        \<lparr>st_X = pool2, st_A = [Fin 1, Fin 1], st_particle_ids = [0, 1], st_t_previous = 0\<rparr>
        (1 / 2) = (w_b, Inr (Xb, Ab, rates)) \<and>
      [Fin 2, Fin 2] = concat Ab \<and>
      snd (resample cfg1 env0 w_b (concat Xb) (concat Ab)) = Inr (pool2, indexes) \<and>
      2 = rng_draws w_b + 1)"
proof -
  let ?E = "const_energy (Fin 0)"
  let ?W = "\<lparr>rng_draws = 2, kernel_calls = [(0, 0), (0, 0), (1 / 2, 1 / 2), (1 / 2, 1 / 2)],
          step_size = 1 / 10 ^ 7\<rparr>"
  note inst = sample_final_resample [of cfg1 ?E pool2 ?E env0 w0]
  have en: "enabled cfg1" by (simp add: cfg1_def)
  have f: "init_filter cfg1 ?E pool2 = Inr pool2" by (simp add: init_filter_def cfg1_def)
  have pl: "plot_energies cfg1 ?E ?E ([0, 1 / 2, 1] ! 0) pool2 = Inr ()"
    by (simp add: plot_energies_def cfg1_def)
  have loop: "smc_loop cfg1 env0 ?E ?E w0 (init_state pool2) (enumerate 0 (butlast [0, 1 / 2, 1]))
     = (\<lparr>rng_draws = 1, kernel_calls = [(0, 0), (0, 0), (1 / 2, 1 / 2), (1 / 2, 1 / 2)],
          step_size = 1 / 10 ^ 7\<rparr>,
        Inr \<lparr>st_X = pool2, st_A = [Fin 2, Fin 2], st_particle_ids = [0, 1],
              st_t_previous = 1 / 2\<rparr>)"
    by (simp add: step_first [simplified] step_second [simplified])
  note p1 = inst [THEN conjunct1, rule_format]
  note p2 = inst [THEN conjunct2, rule_format]
  have ne: "[0, 1 / 2, 1::real] \<noteq> []" by simp
  from p1 [of pool2 "[0, 1 / 2, 1]", OF conjI [OF en conjI [OF f conjI [OF cfg1_timesteps
        conjI [OF ne conjI [OF pl loop]]]]]]
  have draws: "rng_draws (fst (sample cfg1 env0 pool2 ?E ?E w0)) = 2"
    by simp
  from p2 [OF run_two_steps]
  obtain ps w_a st_a w_b Xb Ab rates indexes where
    l: "smc_loop cfg1 env0 ?E ?E w0 (init_state ps)
             (map (\<lambda>k. (k, real k / real_of_int (num_timesteps cfg1)))
                [0..<nat (num_timesteps cfg1) - 1]) = (w_a, Inr st_a)" and
    ps: "init_filter cfg1 ?E pool2 = Inr ps" and
    kp: "kernel_pass cfg1 env0 ?E ?E w_a st_a
           (real (nat (num_timesteps cfg1) - 1) / real_of_int (num_timesteps cfg1))
           = (w_b, Inr (Xb, Ab, rates))" and
    rest: "[Fin 2, Fin 2] = concat Ab"
      "snd (resample cfg1 env0 w_b (concat Xb) (concat Ab)) = Inr (pool2, indexes)"
      "rng_draws ?W = rng_draws w_b + 1"
    by blast
  from ps f have ps2: "ps = pool2" by simp
  have T: "num_timesteps cfg1 = 2" by (simp add: cfg1_def)
  from l have "w_a = \<lparr>rng_draws = 1, kernel_calls = [(0, 0), (0, 0)], step_size = 1 / 10 ^ 7\<rparr>"
    "st_a = \<lparr>st_X = pool2, st_A = [Fin 1, Fin 1], st_particle_ids = [0, 1], st_t_previous = 0\<rparr>"
    unfolding ps2 T by (simp_all add: step_first [simplified])
  with kp rest have ex: "\<exists>w_b Xb Ab rates indexes.
      kernel_pass cfg1 env0 ?E ?E
        \<lparr>rng_draws = 1, kernel_calls = [(0, 0), (0, 0)], step_size = 1 / 10 ^ 7\<rparr>
        \<lparr>st_X = pool2, st_A = [Fin 1, Fin 1], st_particle_ids = [0, 1], st_t_previous = 0\<rparr>
        (1 / 2) = (w_b, Inr (Xb, Ab, rates)) \<and>
      [Fin 2, Fin 2] = concat Ab \<and>
      snd (resample cfg1 env0 w_b (concat Xb) (concat Ab)) = Inr (pool2, indexes) \<and>
      2 = rng_draws w_b + 1"
    unfolding T by auto
  show ?thesis
    using en f cfg1_timesteps pl loop run_two_steps ex draws
    by - (intro conjI; assumption)
qed

theorem loop_resample_resets_weights_witness:
  "smc_step cfg1 env0 (const_energy (Fin 0)) (const_energy (Fin 0)) w0 (init_state pool2) (0, 0)
     = (\<lparr>rng_draws = 1, kernel_calls = [(0, 0), (0, 0)], step_size = 1 / 10 ^ 7\<rparr>,
        Inr \<lparr>st_X = pool2, st_A = [Fin 1, Fin 1], st_particle_ids = [0, 1],
              st_t_previous = 0\<rparr>) \<and>
   rng_draws w0 = 0 \<and>
   [Fin 1, Fin 1] = replicate (length [Fin 1, Fin (1::real)]) (Fin (1::real))"
proof -
  have h: "rng_draws \<lparr>rng_draws = 1, kernel_calls = [(0, 0), (0, 0)], step_size = 1 / 10 ^ 7\<rparr>
           \<noteq> rng_draws w0"
    by (simp add: w0_def)
  from loop_resample_resets_weights [OF step_first h]
  have "[Fin 1, Fin 1] = replicate (length [Fin 1, Fin (1::real)]) (Fin (1::real))"
    by simp
  with step_first show ?thesis by (simp add: w0_def)
qed

text \<open>
  C5, as stated, fails at the terminal resampling: in this run the only resampling event
  is the final one (the draw counter goes from 0 to 1) and the weights after it are
  \<open>[2, 2]\<close>, not all ones.
\<close>

theorem final_resample_keeps_weights_counterexample:
  "rng_draws w0 = 0 \<and>
   sample cfg2 env0 pool2 (const_energy (Fin 0)) (const_energy (Fin 0)) w0
     = (\<lparr>rng_draws = 1, kernel_calls = [(0, 0)], step_size = 1 / 10 ^ 7\<rparr>,
        Inr (Some (pool2, [Fin 2, Fin 2])))"
proof -
  have up: "[0..<2] = [0, 1]"
    by (simp add: numeral_2_eq_2)
  have ts: "init_timesteps cfg2 = Inr [0, 1]"
    by (simp add: init_timesteps_def cfg2_def cfg0_def linspace01_def up)
  have f: "init_filter cfg2 tgt pool2 = Inr pool2" for tgt
    by (simp add: init_filter_def cfg2_def cfg0_def)
  have r: "resample cfg2 env0 w pool2 [Fin 2, Fin 2]
           = (w\<lparr>rng_draws := Suc (rng_draws w)\<rparr>, Inr (pool2, [0, 1]))" for w
    by (simp add: resample_def cfg2_def cfg0_def env0_def systematic_two index_rows_def Let_def
        pool2_def)
  have pl: "plot_energies cfg2 src tgt t x = Inr ()" for src tgt t x
    by (simp add: plot_energies_def cfg2_def cfg0_def)
  have c: "enabled cfg2" "num_timesteps cfg2 = 1" by (simp_all add: cfg2_def cfg0_def)
  have kp: "kernel_pass cfg2 env0 src tgt w0 (init_state pool2) 0
            = (w0\<lparr>kernel_calls := [(0, 0)]\<rparr>,
               Inr ([pool2], [[Fin 2, Fin 2]], [[Fin 1, Fin 1]]))" for src tgt
    by (simp add: kernel_pass_def batches_def slices.simps cfg2_def cfg0_def env0_def lift_kernel_def
        bump_move_def has_nan_X_def Let_def pool2_def init_state_two w0_def)
  have st: "smc_step cfg2 env0 src tgt w0 (init_state pool2) (0, 0)
            = (w0\<lparr>kernel_calls := [(0, 0)]\<rparr>,
               Inr \<lparr>st_X = pool2, st_A = [Fin 2, Fin 2], st_particle_ids = [0, 1],
                     st_t_previous = 0\<rparr>)" for src tgt
    apply (simp add: smc_step_def kp)
    apply (simp add: after_kernel_def has_nan_X_def has_nan_def Let_def pool2_def init_state_two)
    apply (simp add: cfg2_def cfg0_def env0_def w0_def)
    done
  show ?thesis
    by (simp add: sample_def f ts pl c st final_resample_def r index_rows_def)
       (simp add: w0_def)
qed

section \<open>Batching invariance\<close>

















lemma same_rng_trans: "same_rng a b \<Longrightarrow> same_rng b c \<Longrightarrow> same_rng a c"
  by (simp add: same_rng_def)

lemma same_rng_sym: "same_rng a b \<Longrightarrow> same_rng b a"
  by (simp add: same_rng_def)














end
